theory Spec2Isabelle
  imports Complex_Main "HOL-Library.Log_Nat"
begin

section \<open>Fixed-point decimals of the schema\<close>

text \<open>
  The schema (database/schema.sql) keeps gigabyte amounts in exact fixed-point columns:
  \<^verbatim>\<open>DECIMAL(10,2)\<close> for storage and limits, \<^verbatim>\<open>DECIMAL(12,4)\<close> for egress and
  \<^verbatim>\<open>DECIMAL(5,2)\<close> for the usage percentage. A \<^verbatim>\<open>DECIMAL(p,s)\<close> value is modelled
  by the integer number of units of \<open>1 / 10 ^ s\<close> it holds: \<open>204800\<close> is \<open>2048.00\<close> in a
  \<^verbatim>\<open>DECIMAL(10,2)\<close> column and \<open>19210000\<close> is \<open>1921.0000\<close> in a \<^verbatim>\<open>DECIMAL(12,4)\<close>
  column.

  Assigning an exact quotient to a \<^verbatim>\<open>DECIMAL(p,s)\<close> target rounds it to \<open>s\<close> fractional
  digits, half away from zero; \<open>round_div n d\<close> is the quotient \<open>n / d\<close> rounded that way
  (\<open>d \<noteq> 0\<close>). Under the server's default strict SQL mode a value with more than
  \<open>p - s\<close> integer digits is rejected with an out-of-range error.
\<close>

definition round_div :: "int \<Rightarrow> int \<Rightarrow> int" where
  "round_div n d = sgn n * sgn d * ((2 * \<bar>n\<bar> + \<bar>d\<bar>) div (2 * \<bar>d\<bar>))"

definition GB :: int where
  "GB = 1024 * 1024 * 1024"

definition dec_10_2_max :: int where
  "dec_10_2_max = 9999999999"

definition dec_12_4_max :: int where
  "dec_12_4_max = 999999999999"

definition dec_5_2_max :: int where
  "dec_5_2_max = 99999"

datatype sql_error =
    OutOfRange string
  | NoReferencedRow string
  | BadField string
  | NonUniqueColumn string
  | DataTooLong string
  | DuplicateEntry string

definition store_decimal :: "string \<Rightarrow> int \<Rightarrow> int \<Rightarrow> sql_error + int" where
  "store_decimal target maxv v = (if \<bar>v\<bar> \<le> maxv then Inr v else Inl (OutOfRange target))"

text \<open>The number of gigabytes a stored value stands for, as a rational.\<close>

definition dec2_value :: "int \<Rightarrow> rat" where
  "dec2_value v = of_int v / 100"

definition dec4_value :: "int \<Rightarrow> rat" where
  "dec4_value v = of_int v / 10000"

section \<open>Dates\<close>

text \<open>
  A \<^verbatim>\<open>DATETIME\<close> is year, month, day and the second of the day; the order is the
  lexicographic one. \<^verbatim>\<open>DATE_FORMAT(NOW(), '%Y-%m')\<close> is the pair of year and month, and
  \<^verbatim>\<open>DATE_FORMAT(NOW(), '%Y-%m-01 00:00:00')\<close> (or \<^verbatim>\<open>'%Y-%m-01'\<close>, compared with a
  \<^verbatim>\<open>DATETIME\<close>) is the first instant of that month.
\<close>

record datetime =
  dt_year :: nat
  dt_month :: nat
  dt_day :: nat
  dt_second :: nat

definition dt_key :: "datetime \<Rightarrow> nat \<times> nat \<times> nat \<times> nat" where
  "dt_key t = (dt_year t, dt_month t, dt_day t, dt_second t)"

fun key_less :: "nat \<times> nat \<times> nat \<times> nat \<Rightarrow> nat \<times> nat \<times> nat \<times> nat \<Rightarrow> bool" where
  "key_less (y, m, d, s) (y', m', d', s') =
     (y < y' \<or> (y = y' \<and> (m < m' \<or> (m = m' \<and> (d < d' \<or> (d = d' \<and> s < s'))))))"

definition dt_less :: "datetime \<Rightarrow> datetime \<Rightarrow> bool" where
  "dt_less a b = key_less (dt_key a) (dt_key b)"

definition dt_ge :: "datetime \<Rightarrow> datetime \<Rightarrow> bool" where
  "dt_ge a b = (\<not> dt_less a b)"

definition month_year_of :: "datetime \<Rightarrow> nat \<times> nat" where
  "month_year_of t = (dt_year t, dt_month t)"

definition month_start :: "datetime \<Rightarrow> datetime" where
  "month_start t = \<lparr>dt_year = dt_year t, dt_month = dt_month t, dt_day = 1, dt_second = 0\<rparr>"

section \<open>Tables\<close>

text \<open>
  A table is the list of its rows, and a row has the columns that the procedures and
  controllers below read or write. Identifiers (\<^verbatim>\<open>CHAR(36)\<close>) are strings. A column
  that may be \<^verbatim>\<open>NULL\<close> and is tested for it is an option; \<^verbatim>\<open>is_read\<close> and
  \<^verbatim>\<open>egress_used_gb\<close> are only ever written with a value. Primary and unique keys keep
  the rows of a key unique, so where a statement reads one row the first match is taken.
\<close>

type_synonym uuid = string

datatype client_status = active | suspended

datatype file_type = type_file | type_folder

datatype alert_kind = egress_warning | egress_limit | storage_warning | storage_limit

text \<open>
  A value as the database driver hands it to a controller. The \<^verbatim>\<open>value\<close> column of
  \<^verbatim>\<open>system_settings\<close> has type \<^verbatim>\<open>JSON\<close> and is seeded with JSON literals
  (\<^verbatim>\<open>'false'\<close> for \<^verbatim>\<open>block_downloads_on_overage\<close>, \<^verbatim>\<open>'2048'\<close>, an array, objects). The
  driver of the repository is mysql2 (\<^verbatim>\<open>scripts/init-database.js\<close>), which by its
  default hands a JSON column over parsed: the JSON value \<^verbatim>\<open>true\<close> arrives as the boolean
  \<^verbatim>\<open>true\<close>, and only a JSON string arrives as a string. A row of \<^verbatim>\<open>system_settings\<close> below holds the value in that form. The controller
  compares what it receives with the string \<^verbatim>\<open>'true'\<close> by \<^verbatim>\<open>===\<close>, which is false for
  every value that is not a string.
\<close>

datatype js_value = JSString string | JSBoolean bool | JSNumber rat | JSNull | JSUndefined

record client_row =
  c_id :: uuid
  c_user_id :: uuid
  storage_quota_gb :: int
  storage_used_gb :: int
  c_egress_used_gb :: int
  egress_free_limit_gb :: int
  status :: client_status

record file_row =
  f_id :: uuid
  f_client_id :: uuid
  f_name :: string
  size_bytes :: int
  f_type :: file_type
  mime_type :: "string option"
  path :: string
  parent_id :: "uuid option"
  s3_key :: "string option"
  s3_etag :: "string option"
  deleted_at :: "datetime option"

record egress_row =
  e_client_id :: uuid
  month_year :: "nat \<times> nat"
  egress_used_gb :: int

record alert_row =
  a_id :: uuid
  a_client_id :: "uuid option"
  alert_type :: alert_kind
  message :: string
  threshold_percent :: "int option"
  is_read :: bool
  a_created_at :: "datetime option"

record activity_row =
  user_name :: string
  user_role :: string
  action :: string
  details :: string

record storage_config_row =
  cs_client_id :: uuid
  bucket_name :: string
  endpoint :: string
  region :: string
  bucket_prefix :: "string option"
  is_verified :: bool

record download_row =
  d_client_id :: uuid
  d_file_id :: "uuid option"
  file_name :: string
  file_size_bytes :: int

record database =
  clients :: "client_row list"
  files :: "file_row list"
  egress_usage :: "egress_row list"
  alerts :: "alert_row list"
  activity_logs :: "activity_row list"
  system_settings :: "(string \<times> js_value) list"
  client_storage_config :: "storage_config_row list"
  download_history :: "download_row list"

text \<open>
  The column names that \<^verbatim>\<open>CREATE TABLE\<close> declares for the tables of the statements
  below whose column references need a look. A column named without a table is looked up
  in every table of the statement: a name that no table has is an unknown column, and a
  name that more than one table has is ambiguous; either ends the statement with an
  error. \<open>resolve_column\<close> gives the position of the one table that has the name.
  Both \<^verbatim>\<open>clients\<close> and \<^verbatim>\<open>egress_usage\<close> declare a column \<^verbatim>\<open>egress_used_gb\<close>.
\<close>

definition clients_columns :: "string list" where
  "clients_columns =
     [''id'', ''user_id'', ''name'', ''email'', ''company'', ''storage_quota_gb'',
      ''storage_used_gb'', ''egress_used_gb'', ''egress_free_limit_gb'', ''status'',
      ''bucket_name'', ''folder_prefix'', ''created_at'', ''last_active_at'', ''updated_at'']"

definition egress_usage_columns :: "string list" where
  "egress_usage_columns =
     [''id'', ''client_id'', ''month_year'', ''egress_used_gb'', ''created_at'', ''updated_at'']"

definition alerts_columns :: "string list" where
  "alerts_columns =
     [''id'', ''client_id'', ''alert_type'', ''message'', ''threshold_percent'', ''is_read'',
      ''created_at'']"

definition resolve_column :: "string \<Rightarrow> string list list \<Rightarrow> sql_error + nat" where
  "resolve_column col tables =
     (case filter (\<lambda>i. col \<in> set (tables ! i)) [0..<length tables] of
        [] \<Rightarrow> Inl (BadField col)
      | [i] \<Rightarrow> Inr i
      | _ \<Rightarrow> Inl (NonUniqueColumn col))"

section \<open>Quota ledger: \<^verbatim>\<open>recalculate_client_storage\<close>\<close>

text \<open>
  \<^verbatim>\<open>SELECT COALESCE(SUM(size_bytes), 0) ... FROM files WHERE client_id = p_client_id
  AND type = 'file' AND deleted_at IS NULL\<close>: the rows that count and the sum of their
  sizes (\<open>0\<close> when there is none).
\<close>

definition counted :: "uuid \<Rightarrow> file_row \<Rightarrow> bool" where
  "counted p f = (f_client_id f = p \<and> f_type f = type_file \<and> deleted_at f = None)"

definition counted_bytes :: "uuid \<Rightarrow> database \<Rightarrow> int" where
  "counted_bytes p db = sum_list (map size_bytes (filter (counted p) (files db)))"

definition set_storage_used :: "uuid \<Rightarrow> int \<Rightarrow> client_row \<Rightarrow> client_row" where
  "set_storage_used p v c = (if c_id c = p then c\<lparr>storage_used_gb := v\<rparr> else c)"

definition recalculate_client_storage :: "uuid \<Rightarrow> database \<Rightarrow> sql_error + database" where
  "recalculate_client_storage p db =
     (case store_decimal ''total_size_gb'' dec_10_2_max
             (round_div (counted_bytes p db * 100) GB) of
        Inl e \<Rightarrow> Inl e
      | Inr total_size_gb \<Rightarrow>
          Inr (db\<lparr>clients := map (set_storage_used p total_size_gb) (clients db)\<rparr>))"

definition cached_usage :: "uuid \<Rightarrow> database \<Rightarrow> int list" where
  "cached_usage p db = map storage_used_gb (filter (\<lambda>c. c_id c = p) (clients db))"

section \<open>Egress meter and alert engine: \<^verbatim>\<open>record_egress\<close>\<close>

text \<open>
  \<^verbatim>\<open>get_client_monthly_egress\<close>: the accumulated value of the row of the tenant for the
  month of \<^verbatim>\<open>NOW()\<close>, \<open>0\<close> when there is no such row. The pair (client, month) is a
  \<^verbatim>\<open>UNIQUE KEY\<close> of the table, so the first matching row is the only one.
\<close>

definition egress_key :: "uuid \<Rightarrow> nat \<times> nat \<Rightarrow> egress_row \<Rightarrow> bool" where
  "egress_key p m e = (e_client_id e = p \<and> month_year e = m)"

definition egress_of :: "uuid \<Rightarrow> nat \<times> nat \<Rightarrow> egress_row list \<Rightarrow> int" where
  "egress_of p m rows =
     (case filter (egress_key p m) rows of
        [] \<Rightarrow> 0
      | e # _ \<Rightarrow> egress_used_gb e)"

definition get_client_monthly_egress :: "datetime \<Rightarrow> uuid \<Rightarrow> database \<Rightarrow> int" where
  "get_client_monthly_egress now p db = egress_of p (month_year_of now) (egress_usage db)"

text \<open>
  \<^verbatim>\<open>INSERT INTO egress_usage ... VALUES (p_client_id, v_month_year, v_gb)
  ON DUPLICATE KEY UPDATE egress_used_gb = egress_used_gb + v_gb\<close>. The row that holds the
  key is updated in place; without one a row is inserted, which the foreign key on
  \<^verbatim>\<open>client_id\<close> refuses when the client does not exist.
\<close>

fun upsert_egress ::
  "bool \<Rightarrow> uuid \<Rightarrow> nat \<times> nat \<Rightarrow> int \<Rightarrow> egress_row list \<Rightarrow> sql_error + egress_row list" where
  "upsert_egress client_exists p m v_gb [] =
     (if client_exists
      then Inr [\<lparr>e_client_id = p, month_year = m, egress_used_gb = v_gb\<rparr>]
      else Inl (NoReferencedRow ''egress_usage.client_id''))"
| "upsert_egress client_exists p m v_gb (e # es) =
     (if egress_key p m e
      then (case store_decimal ''egress_used_gb'' dec_12_4_max (egress_used_gb e + v_gb) of
              Inl err \<Rightarrow> Inl err
            | Inr v \<Rightarrow> Inr (e\<lparr>egress_used_gb := v\<rparr> # es))
      else (case upsert_egress client_exists p m v_gb es of
              Inl err \<Rightarrow> Inl err
            | Inr es' \<Rightarrow> Inr (e # es')))"

text \<open>
  \<^verbatim>\<open>SELECT egress_used_gb, c.egress_free_limit_gb INTO v_current_egress, v_free_limit
  FROM egress_usage e JOIN clients c ON e.client_id = c.id
  WHERE e.client_id = p_client_id AND e.month_year = v_month_year\<close>. The first column is
  named without a table, so it is looked up in both tables of the join; the value read
  is that of the table it resolves to (the \<^verbatim>\<open>DECIMAL(10,2)\<close> of \<^verbatim>\<open>clients\<close> taken
  into the \<^verbatim>\<open>DECIMAL(12,4)\<close> variable, were it that one). Without a row the variables
  stay \<^verbatim>\<open>NULL\<close>.
\<close>

definition select_egress_and_limit ::
  "uuid \<Rightarrow> nat \<times> nat \<Rightarrow> database \<Rightarrow> sql_error + (int \<times> int) option" where
  "select_egress_and_limit p m db =
     (case resolve_column ''egress_used_gb'' [egress_usage_columns, clients_columns] of
        Inl err \<Rightarrow> Inl err
      | Inr i \<Rightarrow>
          Inr (case concat (map (\<lambda>e. map (\<lambda>c. (if i = 0 then egress_used_gb e
                                                  else c_egress_used_gb c * 100,
                                                  egress_free_limit_gb c))
                                          (filter (\<lambda>c. e_client_id e = c_id c) (clients db)))
                                (filter (egress_key p m) (egress_usage db))) of
                 [] \<Rightarrow> None
               | r # _ \<Rightarrow> Some r))"

text \<open>
  \<^verbatim>\<open>SET v_usage_percent = (v_current_egress / v_free_limit) * 100\<close> into a
  \<^verbatim>\<open>DECIMAL(5,2)\<close>: in hundredths of a percent, the quotient of the egress (in
  ten-thousandths of a GB) times \<open>100\<close> by the limit (in hundredths of a GB), rounded. A division by
  zero gives \<^verbatim>\<open>NULL\<close>, and a comparison with \<^verbatim>\<open>NULL\<close> is not true.
\<close>

definition usage_percent :: "int \<Rightarrow> int \<Rightarrow> sql_error + int option" where
  "usage_percent v_current_egress v_free_limit =
     (if v_free_limit = 0 then Inr None
      else (case store_decimal ''v_usage_percent'' dec_5_2_max
                   (round_div (v_current_egress * 100) v_free_limit) of
              Inl err \<Rightarrow> Inl err
            | Inr v \<Rightarrow> Inr (Some v)))"

definition new_alert ::
  "uuid \<Rightarrow> uuid \<Rightarrow> alert_kind \<Rightarrow> string \<Rightarrow> int \<Rightarrow> datetime \<Rightarrow> alert_row" where
  "new_alert new_id p k msg t now =
     \<lparr>a_id = new_id, a_client_id = Some p, alert_type = k, message = msg,
      threshold_percent = Some t, is_read = False, a_created_at = Some now\<rparr>"

definition created_since :: "datetime \<Rightarrow> alert_row \<Rightarrow> bool" where
  "created_since t a = (case a_created_at a of None \<Rightarrow> False | Some c \<Rightarrow> dt_ge c t)"

definition created_before :: "datetime \<Rightarrow> alert_row \<Rightarrow> bool" where
  "created_before t a = (case a_created_at a of None \<Rightarrow> False | Some c \<Rightarrow> dt_less c t)"

definition alert_matches :: "datetime \<Rightarrow> uuid \<Rightarrow> alert_kind \<Rightarrow> int \<Rightarrow> alert_row \<Rightarrow> bool" where
  "alert_matches now p k t a =
     (a_client_id a = Some p \<and> alert_type a = k \<and> threshold_percent a = Some t
      \<and> created_since (month_start now) a)"

definition alert_exists :: "datetime \<Rightarrow> uuid \<Rightarrow> alert_kind \<Rightarrow> int \<Rightarrow> database \<Rightarrow> bool" where
  "alert_exists now p k t db = list_ex (alert_matches now p k t) (alerts db)"

definition insert_alert :: "alert_row \<Rightarrow> database \<Rightarrow> database" where
  "insert_alert a db = db\<lparr>alerts := alerts db @ [a]\<rparr>"

text \<open>
  The \<^verbatim>\<open>IF ... ELSEIF ... END IF\<close> of \<^verbatim>\<open>record_egress\<close> on the percentage (in
  hundredths). \<^verbatim>\<open>INSERT IGNORE\<close> in the first branch inserts the row: the table has no
  unique key besides the fresh \<^verbatim>\<open>id\<close>, so there is nothing for it to ignore.
\<close>

definition check_thresholds ::
  "datetime \<Rightarrow> uuid \<Rightarrow> uuid \<Rightarrow> int option \<Rightarrow> database \<Rightarrow> database" where
  "check_thresholds now new_id p v_usage_percent db =
     (case v_usage_percent of
        None \<Rightarrow> db
      | Some v \<Rightarrow>
          if v \<ge> 10000 then
            insert_alert (new_alert new_id p egress_limit
              ''You have exceeded your free egress limit!'' 100 now) db
          else if v \<ge> 9000 then
            (if \<not> alert_exists now p egress_warning 90 db then
               insert_alert (new_alert new_id p egress_warning
                 ''You have used 90% of your free egress limit'' 90 now) db
             else db)
          else if v \<ge> 8000 then
            (if \<not> alert_exists now p egress_warning 80 db then
               insert_alert (new_alert new_id p egress_warning
                 ''You have used 80% of your free egress limit'' 80 now) db
             else db)
          else db)"

text \<open>
  \<^verbatim>\<open>record_egress(p_client_id, p_bytes)\<close>, called at time \<open>now\<close>; \<open>new_id\<close> is the
  \<^verbatim>\<open>UUID()\<close> a new alert row would get. The procedure is three steps: the conversion
  \<^verbatim>\<open>SET v_gb = p_bytes / (1024 * 1024 * 1024)\<close> into a \<^verbatim>\<open>DECIMAL(12,4)\<close> with the
  upsert (\<open>record_usage\<close>), the reading of egress and limit with the percentage
  (\<open>current_percent\<close>), and the thresholds. The controller calls the procedure outside a
  transaction, so each statement is committed as it completes and an error in a later
  statement does not undo an earlier one: the result is the error the call raised, if
  any, and the database it leaves.
\<close>

definition to_gb4 :: "int \<Rightarrow> int" where
  "to_gb4 bytes = round_div (bytes * 10000) GB"

definition record_usage :: "datetime \<Rightarrow> uuid \<Rightarrow> int \<Rightarrow> database \<Rightarrow> sql_error + database" where
  "record_usage now p_client_id p_bytes db =
     (case store_decimal ''v_gb'' dec_12_4_max (to_gb4 p_bytes) of
        Inl err \<Rightarrow> Inl err
      | Inr v_gb \<Rightarrow>
          (case upsert_egress (list_ex (\<lambda>c. c_id c = p_client_id) (clients db))
                  p_client_id (month_year_of now) v_gb (egress_usage db) of
             Inl err \<Rightarrow> Inl err
           | Inr rows \<Rightarrow> Inr (db\<lparr>egress_usage := rows\<rparr>)))"

definition current_percent :: "datetime \<Rightarrow> uuid \<Rightarrow> database \<Rightarrow> sql_error + int option" where
  "current_percent now p_client_id db =
     (case select_egress_and_limit p_client_id (month_year_of now) db of
        Inl err \<Rightarrow> Inl err
      | Inr None \<Rightarrow> Inr None
      | Inr (Some (v_current_egress, v_free_limit)) \<Rightarrow>
          usage_percent v_current_egress v_free_limit)"

definition record_egress ::
  "datetime \<Rightarrow> uuid \<Rightarrow> uuid \<Rightarrow> int \<Rightarrow> database \<Rightarrow> sql_error option \<times> database" where
  "record_egress now new_id p_client_id p_bytes db =
     (case record_usage now p_client_id p_bytes db of
        Inl err \<Rightarrow> (Some err, db)
      | Inr db1 \<Rightarrow>
          (case current_percent now p_client_id db1 of
             Inl err \<Rightarrow> (Some err, db1)
           | Inr v_usage_percent \<Rightarrow>
               (None, check_thresholds now new_id p_client_id v_usage_percent db1)))"

text \<open>
  A sequence of downloads: each call gets its own time, alert id and size, and runs on
  the database the previous call left.
\<close>

fun record_all :: "(datetime \<times> uuid \<times> int) list \<Rightarrow> uuid \<Rightarrow> database \<Rightarrow> database" where
  "record_all [] p db = db"
| "record_all ((now, new_id, bytes) # calls) p db =
     record_all calls p (snd (record_egress now new_id p bytes db))"

section \<open>Monthly reset: \<^verbatim>\<open>reset_monthly_egress\<close>\<close>




section \<open>JavaScript numbers\<close>

text \<open>
  The controllers compute with JavaScript numbers, IEEE 754 doubles. A finite double is
  modelled by the rational number it denotes, and \<open>fl\<close> rounds a rational to the nearest
  double, ties to the even significand of 53 bits. Overflow to infinity and subnormal
  numbers are left out: the amounts here are zero or lie between \<open>pow2 (- 30)\<close> and
  \<open>pow2 64\<close>. \<open>pow2 e\<close> is the power of two with the integer exponent \<open>e\<close>, and
  \<open>ilog2 x\<close> is the exponent of the binade of a positive \<open>x\<close>:
  \<open>pow2 (ilog2 x) \<le> x < pow2 (ilog2 x + 1)\<close>.
\<close>

definition pow2 :: "int \<Rightarrow> rat" where
  "pow2 e = (if 0 \<le> e then 2 ^ nat e else 1 / 2 ^ nat (- e))"

definition ilog2 :: "rat \<Rightarrow> int" where
  "ilog2 x = (let (a, b) = quotient_of x; e = bitlen a - bitlen b
              in if pow2 e \<le> x then e else e - 1)"

definition round_half_even :: "rat \<Rightarrow> int" where
  "round_half_even x =
     (let f = \<lfloor>x\<rfloor>; r = x - of_int f
      in if r < 1 / 2 then f else if 1 / 2 < r then f + 1 else if even f then f else f + 1)"

definition fl :: "rat \<Rightarrow> rat" where
  "fl x = (if x = 0 then 0
           else let e = ilog2 \<bar>x\<bar> - 52
                in sgn x * of_int (round_half_even (\<bar>x\<bar> / pow2 e)) * pow2 e)"

text \<open>
  \<^verbatim>\<open>parseFloat\<close> of the text the driver returns for a \<^verbatim>\<open>DECIMAL\<close> with \<open>s\<close>
  fractional digits, the number for an integer, and the operators \<^verbatim>\<open>+\<close> and \<^verbatim>\<open>/\<close>.
\<close>

definition parseFloat :: "nat \<Rightarrow> int \<Rightarrow> rat" where
  "parseFloat s v = fl (of_int v / 10 ^ s)"

definition js_number :: "int \<Rightarrow> rat" where
  "js_number k = fl (of_int k)"

definition js_add :: "rat \<Rightarrow> rat \<Rightarrow> rat" where
  "js_add a b = fl (a + b)"

definition js_div :: "rat \<Rightarrow> rat \<Rightarrow> rat" where
  "js_div a b = fl (a / b)"

section \<open>Controllers\<close>

text \<open>
  The error codes of \<^verbatim>\<open>AppError\<close> that the controllers raise; an error of the database
  or of the object storage reaches the error handler as it is.
\<close>

datatype app_error =
    CLIENT_NOT_FOUND
  | ACCOUNT_SUSPENDED
  | STORAGE_NOT_CONFIGURED
  | QUOTA_EXCEEDED
  | FILE_NOT_FOUND
  | DOWNLOAD_LIMIT_EXCEEDED
  | ALERT_NOT_FOUND
  | DatabaseError sql_error
  | StorageError

text \<open>\<^verbatim>\<open>activityService.logActivity\<close>: the row is inserted; a failure there is swallowed.\<close>

definition logActivity :: "string \<Rightarrow> string \<Rightarrow> string \<Rightarrow> string \<Rightarrow> database \<Rightarrow> database" where
  "logActivity userName userRole act det db =
     db\<lparr>activity_logs := activity_logs db @
          [\<lparr>user_name = userName, user_role = userRole, action = act, details = det\<rparr>]\<rparr>"

subsection \<open>\<^verbatim>\<open>getUploadUrl\<close> (file.controller.js)\<close>

record upload_request =
  u_userId :: uuid
  u_userName :: string
  u_userRole :: string
  fileName :: string
  fileSize :: int
  mimeType :: string
  parentId :: "uuid option"

record upload_response =
  uploadUrl :: string
  fileId :: uuid
  s3Key :: string
  expiresIn :: nat

text \<open>
  \<^verbatim>\<open>SELECT c.*, cs.... FROM clients c LEFT JOIN client_storage_config cs
  ON c.id = cs.client_id WHERE c.user_id = ?\<close>.
\<close>

definition select_client_with_config ::
  "uuid \<Rightarrow> database \<Rightarrow> (client_row \<times> storage_config_row option) list" where
  "select_client_with_config userId db =
     concat (map (\<lambda>c. case filter (\<lambda>cs. cs_client_id cs = c_id c) (client_storage_config db) of
                          [] \<Rightarrow> [(c, None)]
                        | css \<Rightarrow> map (\<lambda>cs. (c, Some cs)) css)
                 (filter (\<lambda>c. c_user_id c = userId) (clients db)))"

text \<open>\<^verbatim>\<open>!client.is_verified\<close>: no configuration row, or one that is not verified.\<close>

definition not_verified :: "storage_config_row option \<Rightarrow> bool" where
  "not_verified cs = (case cs of None \<Rightarrow> True | Some c \<Rightarrow> \<not> is_verified c)"

text \<open>
  \<^verbatim>\<open>fileSizeGB = fileSize / (1024 * 1024 * 1024)\<close>,
  \<^verbatim>\<open>newStorageUsed = parseFloat(client.storage_used_gb) + fileSizeGB\<close> and the test
  \<^verbatim>\<open>newStorageUsed > parseFloat(client.storage_quota_gb)\<close>.
\<close>

definition newStorageUsed :: "client_row \<Rightarrow> int \<Rightarrow> rat" where
  "newStorageUsed client bytes =
     js_add (parseFloat 2 (storage_used_gb client)) (js_div (js_number bytes) (of_int GB))"

definition quota_exceeded :: "client_row \<Rightarrow> int \<Rightarrow> bool" where
  "quota_exceeded client bytes =
     (newStorageUsed client bytes > parseFloat 2 (storage_quota_gb client))"

definition build_path :: "string \<Rightarrow> uuid option \<Rightarrow> uuid \<Rightarrow> database \<Rightarrow> string" where
  "build_path name parent cid db =
     (case parent of
        None \<Rightarrow> name
      | Some pid \<Rightarrow>
          (case filter (\<lambda>f. f_id f = pid \<and> f_client_id f = cid) (files db) of
             [] \<Rightarrow> name
           | pf # _ \<Rightarrow> path pf @ ''/'' @ name))"

text \<open>\<^verbatim>\<open>s3Service.generateS3Key\<close> (s3.service.js).\<close>

fun squeeze_slashes :: "string \<Rightarrow> string" where
  "squeeze_slashes (c # d # cs) =
     (if c = CHR ''/'' \<and> d = CHR ''/'' then squeeze_slashes (d # cs)
      else c # squeeze_slashes (d # cs))"
| "squeeze_slashes cs = cs"

definition generateS3Key :: "string option \<Rightarrow> string \<Rightarrow> string" where
  "generateS3Key bucketPrefix filePath =
     (let prefix = (case bucketPrefix of None \<Rightarrow> [] | Some p \<Rightarrow> p);
          cleanPath = dropWhile (\<lambda>c. c = CHR ''/'') filePath
      in if prefix \<noteq> [] then squeeze_slashes (prefix @ ''/'' @ cleanPath) else cleanPath)"

text \<open>
  \<^verbatim>\<open>INSERT INTO files (id, client_id, name, size_bytes, type, mime_type, path, parent_id,
  s3_key)\<close> with the constraints of the table: the primary key, the \<^verbatim>\<open>BIGINT\<close> range,
  the lengths of \<^verbatim>\<open>name\<close> and \<^verbatim>\<open>mime_type\<close>, and the two foreign keys.
\<close>

definition insert_file :: "file_row \<Rightarrow> database \<Rightarrow> sql_error + database" where
  "insert_file f db =
     (if list_ex (\<lambda>g. f_id g = f_id f) (files db) then Inl (DuplicateEntry ''files.PRIMARY'')
      else if size_bytes f < - (2 ^ 63) \<or> 2 ^ 63 \<le> size_bytes f then Inl (OutOfRange ''size_bytes'')
      else if 500 < length (f_name f) then Inl (DataTooLong ''name'')
      else if (case mime_type f of None \<Rightarrow> False | Some m \<Rightarrow> 255 < length m)
        then Inl (DataTooLong ''mime_type'')
      else if \<not> list_ex (\<lambda>c. c_id c = f_client_id f) (clients db)
        then Inl (NoReferencedRow ''files.client_id'')
      else if (case parent_id f of None \<Rightarrow> False
               | Some pid \<Rightarrow> \<not> list_ex (\<lambda>g. f_id g = pid) (files db))
        then Inl (NoReferencedRow ''files.parent_id'')
      else Inr (db\<lparr>files := files db @ [f]\<rparr>))"

text \<open>
  \<^verbatim>\<open>getUploadUrl\<close>. \<open>new_id\<close> is the \<^verbatim>\<open>uuidv4()\<close> of the new record and \<open>presigned\<close>
  what the object storage answers, \<open>None\<close> when the call throws. The result is the
  response or the error, and the database as the request leaves it.
\<close>

definition getUploadUrl ::
  "upload_request \<Rightarrow> uuid \<Rightarrow> string option \<Rightarrow> database
     \<Rightarrow> (app_error + upload_response) \<times> database" where
  "getUploadUrl req new_id presigned db =
     (case select_client_with_config (u_userId req) db of
        [] \<Rightarrow> (Inl CLIENT_NOT_FOUND, db)
      | (client, cs) # _ \<Rightarrow>
          if status client \<noteq> active then (Inl ACCOUNT_SUSPENDED, db)
          else if not_verified cs then (Inl STORAGE_NOT_CONFIGURED, db)
          else if quota_exceeded client (fileSize req) then (Inl QUOTA_EXCEEDED, db)
          else
            (let p = build_path (fileName req) (parentId req) (c_id client) db;
                 key = generateS3Key (case cs of None \<Rightarrow> None | Some c \<Rightarrow> bucket_prefix c)
                         (if p \<noteq> [] then p @ ''/'' @ fileName req else fileName req)
             in case presigned of
                  None \<Rightarrow> (Inl StorageError, db)
                | Some url \<Rightarrow>
                    (case insert_file
                            \<lparr>f_id = new_id, f_client_id = c_id client, f_name = fileName req,
                             size_bytes = fileSize req, f_type = type_file,
                             mime_type = Some (mimeType req), path = p,
                             parent_id = parentId req, s3_key = Some key, s3_etag = None,
                             deleted_at = None\<rparr> db of
                       Inl err \<Rightarrow> (Inl (DatabaseError err), db)
                     | Inr db' \<Rightarrow>
                         (Inr \<lparr>uploadUrl = url, fileId = new_id, s3Key = key, expiresIn = 3600\<rparr>,
                          logActivity (u_userName req) (u_userRole req) ''file_upload_init''
                            (''Initiated upload: '' @ fileName req) db'))))"

subsection \<open>\<^verbatim>\<open>getDownloadUrl\<close> (file.controller.js)\<close>

record download_request =
  d_userId :: uuid
  d_userName :: string
  d_userRole :: string
  d_fileId :: uuid

record download_response =
  downloadUrl :: string
  r_fileName :: string
  r_expiresIn :: nat

text \<open>
  The join of the file with its client, the egress row of the current month
  (\<^verbatim>\<open>COALESCE(e.egress_used_gb, 0)\<close>) and the storage configuration, for a live record
  of type file that belongs to the client of the user. The result is the file, the
  client and the egress value of each row.
\<close>

definition select_download ::
  "datetime \<Rightarrow> uuid \<Rightarrow> uuid \<Rightarrow> database \<Rightarrow> (file_row \<times> client_row \<times> int) list" where
  "select_download now fid userId db =
     concat (map (\<lambda>f.
       concat (map (\<lambda>c.
         concat (map (\<lambda>e.
           map (\<lambda>cs. (f, c, e))
             (case filter (\<lambda>cs. cs_client_id cs = c_id c) (client_storage_config db) of
                [] \<Rightarrow> [None] | css \<Rightarrow> map Some css))
           (case filter (egress_key (c_id c) (month_year_of now)) (egress_usage db) of
              [] \<Rightarrow> [0] | es \<Rightarrow> map egress_used_gb es)))
         (filter (\<lambda>c. f_client_id f = c_id c \<and> c_user_id c = userId) (clients db))))
       (filter (\<lambda>f. f_id f = fid \<and> deleted_at f = None \<and> f_type f = type_file) (files db)))"

text \<open>
  \<^verbatim>\<open>settings[0]?.value === 'true'\<close> on the rows of
  \<^verbatim>\<open>SELECT value FROM system_settings WHERE `key` = 'block_downloads_on_overage'\<close>.
\<close>

definition blockOnOverage :: "database \<Rightarrow> bool" where
  "blockOnOverage db =
     (case filter (\<lambda>kv. fst kv = ''block_downloads_on_overage'') (system_settings db) of
        [] \<Rightarrow> False
      | kv # _ \<Rightarrow> snd kv = JSString ''true'')"

definition over_limit :: "int \<Rightarrow> client_row \<Rightarrow> bool" where
  "over_limit egress client = (parseFloat 4 egress \<ge> parseFloat 2 (egress_free_limit_gb client))"

definition insert_download :: "download_row \<Rightarrow> database \<Rightarrow> database" where
  "insert_download d db = db\<lparr>download_history := download_history db @ [d]\<rparr>"

text \<open>
  \<^verbatim>\<open>getDownloadUrl\<close> at time \<open>now\<close>. \<open>presigned\<close> is the answer of the object storage
  and \<open>new_id\<close> the id of an alert that \<^verbatim>\<open>record_egress\<close> may insert.
\<close>

definition getDownloadUrl ::
  "download_request \<Rightarrow> datetime \<Rightarrow> uuid \<Rightarrow> string option \<Rightarrow> database
     \<Rightarrow> (app_error + download_response) \<times> database" where
  "getDownloadUrl req now new_id presigned db =
     (case select_download now (d_fileId req) (d_userId req) db of
        [] \<Rightarrow> (Inl FILE_NOT_FOUND, db)
      | (f, client, egress) # _ \<Rightarrow>
          if status client \<noteq> active then (Inl ACCOUNT_SUSPENDED, db)
          else if blockOnOverage db \<and> over_limit egress client
            then (Inl DOWNLOAD_LIMIT_EXCEEDED, db)
          else
            (case presigned of
               None \<Rightarrow> (Inl StorageError, db)
             | Some url \<Rightarrow>
                 (case record_egress now new_id (c_id client) (size_bytes f) db of
                    (Some err, db1) \<Rightarrow> (Inl (DatabaseError err), db1)
                  | (None, db1) \<Rightarrow>
                      (Inr \<lparr>downloadUrl = url, r_fileName = f_name f, r_expiresIn = 3600\<rparr>,
                       logActivity (d_userName req) (d_userRole req) ''file_download''
                         (''Downloaded file: '' @ f_name f)
                         (insert_download
                            \<lparr>d_client_id = c_id client, d_file_id = Some (d_fileId req),
                             file_name = f_name f, file_size_bytes = size_bytes f\<rparr> db1)))))"

subsection \<open>\<^verbatim>\<open>markAlertRead\<close> and \<^verbatim>\<open>dismissAlert\<close> (client controller)\<close>

text \<open>
  \<^verbatim>\<open>UPDATE alerts SET col = TRUE WHERE id = ?\<close>: the column is looked up among those
  of \<^verbatim>\<open>alerts\<close>; the controllers use the statement on flags, of which the table has
  \<^verbatim>\<open>is_read\<close>.
\<close>

definition update_alerts_set_true :: "string \<Rightarrow> uuid \<Rightarrow> database \<Rightarrow> sql_error + database" where
  "update_alerts_set_true col alertId db =
     (case resolve_column col [alerts_columns] of
        Inl err \<Rightarrow> Inl err
      | Inr _ \<Rightarrow>
          Inr (db\<lparr>alerts :=
                 map (\<lambda>a. if a_id a = alertId \<and> col = ''is_read'' then a\<lparr>is_read := True\<rparr> else a)
                   (alerts db)\<rparr>))"

text \<open>
  \<^verbatim>\<open>SELECT a.* FROM alerts a JOIN clients c ON a.client_id = c.id
  WHERE a.id = ? AND c.user_id = ?\<close>: the alerts with this id that belong to the user.
\<close>

definition select_owned_alerts :: "uuid \<Rightarrow> uuid \<Rightarrow> database \<Rightarrow> alert_row list" where
  "select_owned_alerts alertId userId db =
     concat (map (\<lambda>a. map (\<lambda>c. a)
                        (filter (\<lambda>c. a_client_id a = Some (c_id c) \<and> c_user_id c = userId)
                           (clients db)))
                 (filter (\<lambda>a. a_id a = alertId) (alerts db)))"

definition markAlertRead :: "uuid \<Rightarrow> uuid \<Rightarrow> database \<Rightarrow> app_error + database" where
  "markAlertRead alertId userId db =
     (if select_owned_alerts alertId userId db = [] then Inl ALERT_NOT_FOUND
      else (case update_alerts_set_true ''is_read'' alertId db of
              Inl err \<Rightarrow> Inl (DatabaseError err)
            | Inr db' \<Rightarrow> Inr db'))"

definition dismissAlert :: "uuid \<Rightarrow> uuid \<Rightarrow> database \<Rightarrow> app_error + database" where
  "dismissAlert alertId userId db =
     (if select_owned_alerts alertId userId db = [] then Inl ALERT_NOT_FOUND
      else (case update_alerts_set_true ''is_dismissed'' alertId db of
              Inl err \<Rightarrow> Inl (DatabaseError err)
            | Inr db' \<Rightarrow> Inr db'))"

section \<open>Example states\<close>

text \<open>Concrete rows and databases on which the operations are evaluated below.\<close>

definition mid_march :: datetime where
  "mid_march = \<lparr>dt_year = 2026, dt_month = 3, dt_day = 15, dt_second = 36000\<rparr>"

definition late_march :: datetime where
  "late_march = \<lparr>dt_year = 2026, dt_month = 3, dt_day = 28, dt_second = 100\<rparr>"

definition mid_january :: datetime where
  "mid_january = \<lparr>dt_year = 2026, dt_month = 1, dt_day = 20, dt_second = 4000\<rparr>"

definition ex_client :: "int \<Rightarrow> int \<Rightarrow> int \<Rightarrow> client_status \<Rightarrow> client_row" where
  "ex_client quota used limit st =
     \<lparr>c_id = ''client-1'', c_user_id = ''user-1'', storage_quota_gb = quota,
      storage_used_gb = used, c_egress_used_gb = 0, egress_free_limit_gb = limit,
      status = st\<rparr>"

definition ex_file :: "uuid \<Rightarrow> int \<Rightarrow> file_type \<Rightarrow> string option \<Rightarrow> datetime option \<Rightarrow> file_row" where
  "ex_file i n t etag del =
     \<lparr>f_id = i, f_client_id = ''client-1'', f_name = ''report.bin'', size_bytes = n, f_type = t,
      mime_type = Some ''application/octet-stream'', path = ''report.bin'', parent_id = None,
      s3_key = (if t = type_file then Some ''report.bin/report.bin'' else None),
      s3_etag = etag, deleted_at = del\<rparr>"

definition ex_config :: "bool \<Rightarrow> storage_config_row" where
  "ex_config v =
     \<lparr>cs_client_id = ''client-1'', bucket_name = ''bucket'', endpoint = ''s3.example.com'',
      region = ''us-east-1'', bucket_prefix = None, is_verified = v\<rparr>"

definition ex_db ::
  "client_row list \<Rightarrow> file_row list \<Rightarrow> egress_row list \<Rightarrow> alert_row list \<Rightarrow> database" where
  "ex_db cs fs es als =
     \<lparr>clients = cs, files = fs, egress_usage = es, alerts = als, activity_logs = [],
      system_settings = [(''block_downloads_on_overage'', JSString ''true'')],
      client_storage_config = [ex_config True], download_history = []\<rparr>"

text \<open>One file of a million bytes, confirmed and not deleted.\<close>

definition small_file_db :: database where
  "small_file_db =
     ex_db [ex_client 10000 0 204800 active]
       [ex_file ''f1'' 1000000 type_file (Some ''etag-1'') None] [] []"

text \<open>
  A confirmed file of 1.5 GiB, a deleted file, a folder and a file of another tenant.
\<close>

definition mixed_files_db :: database where
  "mixed_files_db =
     ex_db [ex_client 10000 0 204800 active]
       [ex_file ''f1'' 1610612736 type_file (Some ''etag-1'') None,
        ex_file ''f2'' 1073741824 type_file (Some ''etag-2'') (Some mid_january),
        ex_file ''d1'' 0 type_folder None None,
        (ex_file ''f3'' 1073741824 type_file (Some ''etag-3'') None)\<lparr>f_client_id := ''client-2''\<rparr>]
       [] []"

text \<open>
  The row that upload initiation inserts (storage key set, no ETag yet) for a file of
  1 GiB whose upload is never confirmed.
\<close>

definition pending_file :: file_row where
  "pending_file = ex_file ''f1'' 1073741824 type_file None None"

definition pending_upload_db :: database where
  "pending_upload_db = ex_db [ex_client 10000 0 204800 active] [pending_file] [] []"

text \<open>
  Egress alerts of January and of March 2026, and a storage alert of January.
\<close>

definition ex_alert :: "uuid \<Rightarrow> alert_kind \<Rightarrow> int \<Rightarrow> datetime \<Rightarrow> alert_row" where
  "ex_alert i k t c = new_alert i ''client-1'' k ''usage alert'' t c"

definition two_months_db :: database where
  "two_months_db =
     ex_db [ex_client 10000 0 204800 active] [] []
       [ex_alert ''a1'' egress_warning 80 mid_january,
        ex_alert ''a2'' egress_limit 100 mid_january,
        ex_alert ''a3'' storage_warning 80 mid_january,
        ex_alert ''a4'' egress_warning 90 mid_march]"

text \<open>
  Egress rows: no row yet, 1920 GB and 2048 GB accumulated in March 2026; the free limit
  of the example client is 2048.00 GB.
\<close>

definition ex_egress :: "int \<Rightarrow> egress_row" where
  "ex_egress v = \<lparr>e_client_id = ''client-1'', month_year = (2026, 3), egress_used_gb = v\<rparr>"

definition no_egress_db :: database where
  "no_egress_db = ex_db [ex_client 10000 0 204800 active] [] [] []"

definition scenario_b_db :: database where
  "scenario_b_db = ex_db [ex_client 10000 0 204800 active] [] [ex_egress 19200000] []"


text \<open>
  Requests of the user of the example client: an upload of a given size and the download
  of the file \<open>f1\<close>.
\<close>

definition ex_upload :: "int \<Rightarrow> upload_request" where
  "ex_upload n =
     \<lparr>u_userId = ''user-1'', u_userName = ''Ann'', u_userRole = ''client'',
      fileName = ''report.bin'', fileSize = n, mimeType = ''application/octet-stream'',
      parentId = None\<rparr>"

definition ex_download :: download_request where
  "ex_download =
     \<lparr>d_userId = ''user-1'', d_userName = ''Ann'', d_userRole = ''client'', d_fileId = ''f1''\<rparr>"

text \<open>A suspended client whose storage configuration is not verified.\<close>

definition suspended_unverified_db :: database where
  "suspended_unverified_db =
     (ex_db [ex_client 10000 0 204800 suspended] [] [] [])
       \<lparr>client_storage_config := [ex_config False]\<rparr>"

text \<open>A client with 25.01 GB used of a quota of 50.01 GB.\<close>

definition fractional_quota_db :: database where
  "fractional_quota_db = ex_db [ex_client 5001 2501 204800 active] [] [] []"

text \<open>A client with 262144.04 GB used of a quota of 262144.08 GB.\<close>

definition large_quota_db :: database where
  "large_quota_db = ex_db [ex_client 26214408 26214404 204800 active] [] [] []"

text \<open>
  A client with a file of 1 GiB who has used 2048.0000 GB of a free limit of 2048.00 GB
  in March 2026, the setting \<^verbatim>\<open>block_downloads_on_overage\<close> being \<^verbatim>\<open>'true'\<close>; and the
  same for a suspended client.
\<close>

definition overage_db :: "client_status \<Rightarrow> database" where
  "overage_db st =
     ex_db [ex_client 10000 100 204800 st]
       [ex_file ''f1'' 1073741824 type_file (Some ''etag-1'') None] [ex_egress 20480000] []"

text \<open>The same active client when the setting holds the JSON value \<^verbatim>\<open>true\<close>.\<close>

definition true_setting_db :: database where
  "true_setting_db =
     (overage_db active)\<lparr>system_settings := [(''block_downloads_on_overage'', JSBoolean True)]\<rparr>"

section \<open>Rounding facts\<close>

lemma round_div_nonneg_eq:
  assumes "0 \<le> n" "0 < d"
  shows "round_div n d = (2 * n + d) div (2 * d)"
proof (cases "n = 0")
  case True
  with assms show ?thesis by (simp add: round_div_def)
next
  case False
  with assms have "0 < n" by simp
  with assms show ?thesis by (simp add: round_div_def)
qed

lemma round_div_bounds:
  assumes "0 \<le> n" "0 < d"
  shows "2 * d * round_div n d \<le> 2 * n + d" and "2 * n + d < 2 * d * round_div n d + 2 * d"
proof -
  let ?q = "(2 * n + d) div (2 * d)"
  have d2: "0 < 2 * d" using assms by simp
  have eq: "2 * n + d = 2 * d * ?q + (2 * n + d) mod (2 * d)"
    by simp
  have lo: "0 \<le> (2 * n + d) mod (2 * d)" using d2 by simp
  have hi: "(2 * n + d) mod (2 * d) < 2 * d" using d2 by simp
  show "2 * d * round_div n d \<le> 2 * n + d"
    unfolding round_div_nonneg_eq [OF assms] using eq lo by linarith
  show "2 * n + d < 2 * d * round_div n d + 2 * d"
    unfolding round_div_nonneg_eq [OF assms] using eq hi by linarith
qed

lemma round_div_neg: "round_div (- n) d = - round_div n d"
  by (simp add: round_div_def sgn_if)

lemma round_div_error_nonneg:
  assumes "0 \<le> n" "0 < d"
  shows "\<bar>2 * (d * round_div n d - n)\<bar> \<le> d"
  using round_div_bounds [OF assms] by (simp add: algebra_simps abs_le_iff)

lemma round_div_error:
  assumes "0 < d"
  shows "\<bar>2 * (d * round_div n d - n)\<bar> \<le> d"
proof (cases "0 \<le> n")
  case True
  then show ?thesis using assms by (rule round_div_error_nonneg)
next
  case False
  then have "0 \<le> - n" by simp
  from round_div_error_nonneg [OF this assms]
  show ?thesis by (simp add: round_div_neg algebra_simps abs_le_iff)
qed

text \<open>
  The stored hundredths differ from the exact number of gigabytes by at most half a
  hundredth.
\<close>

lemma gb_rounding_error:
  "\<bar>dec2_value (round_div (b * 100) GB) - of_int b / 2 ^ 30\<bar> \<le> 1 / 200"
proof -
  let ?q = "round_div (b * 100) GB"
  have gb: "GB = 2 ^ 30" by (simp add: GB_def)
  have "\<bar>2 * (GB * ?q - b * 100)\<bar> \<le> GB"
    by (rule round_div_error) (simp add: GB_def)
  then have "(of_int \<bar>2 * (GB * ?q - b * 100)\<bar> :: rat) \<le> of_int GB"
    by (simp only: of_int_le_iff)
  then have "\<bar>2 * (2 ^ 30 * of_int ?q - of_int b * 100)\<bar> \<le> (2 ^ 30 :: rat)"
    by (simp add: gb)
  then have "\<bar>(of_int ?q / 100 - of_int b / 2 ^ 30) * (200 * 2 ^ 30)\<bar> \<le> (2 ^ 30 :: rat)"
    by (simp add: field_simps)
  then have "\<bar>of_int ?q / 100 - of_int b / 2 ^ 30\<bar> * (200 * 2 ^ 30) \<le> (2 ^ 30 :: rat)"
    by (simp only: abs_mult) simp
  then show ?thesis
    by (simp add: dec2_value_def field_simps)
qed

section \<open>Rounding to the nearest double\<close>

lemma pow2_pos [simp]: "0 < pow2 e"
  by (simp add: pow2_def)

lemma pow2_add: "pow2 (a + b) = pow2 a * pow2 b"
proof -
  have "pow2 e = 2 powi e" for e
    by (simp add: pow2_def power_int_def field_simps)
  then show ?thesis by (simp add: power_int_add)
qed

lemma pow2_nat: "0 \<le> e \<Longrightarrow> pow2 e = 2 ^ nat e"
  by (simp add: pow2_def)

lemma pow2_mono: "a \<le> b \<Longrightarrow> pow2 a \<le> pow2 b"
proof -
  assume ab: "a \<le> b"
  have split: "pow2 b = pow2 a * pow2 (b - a)" by (simp flip: pow2_add)
  have "1 \<le> pow2 (b - a)" using ab by (simp add: pow2_def)
  then have "pow2 a * 1 \<le> pow2 a * pow2 (b - a)"
    by (intro mult_left_mono) (simp_all add: less_imp_le)
  with split show ?thesis by simp
qed

lemma int_pow2_bounds:
  assumes "0 < a"
  shows "pow2 (bitlen a - 1) \<le> of_int a" and "of_int a < pow2 (bitlen a)"
proof -
  from bitlen_bounds [OF assms]
  have lo: "2 ^ nat (bitlen a - 1) \<le> a" and hi: "a < 2 ^ nat (bitlen a)" by simp_all
  have b1: "1 \<le> bitlen a" using assms by (auto simp: bitlen_alt_def)
  have "(of_int (2 ^ nat (bitlen a - 1)) :: rat) \<le> of_int a"
    using lo by (simp only: of_int_le_iff)
  then show "pow2 (bitlen a - 1) \<le> of_int a" using b1 by (simp add: pow2_def)
  have "(of_int a :: rat) < of_int (2 ^ nat (bitlen a))"
    using hi by (simp only: of_int_less_iff)
  then show "of_int a < pow2 (bitlen a)" using b1 by (simp add: pow2_def)
qed

lemma ilog2_bounds:
  assumes "0 < x"
  shows "pow2 (ilog2 x) \<le> x" and "x < pow2 (ilog2 x + 1)"
proof -
  obtain a b where q: "quotient_of x = (a, b)" by (cases "quotient_of x")
  then have b: "0 < b" by (rule quotient_of_denom_pos)
  from q have x: "x = of_int a / of_int b" by (rule quotient_of_div)
  with assms b have a: "0 < a" by (simp add: zero_less_divide_iff)
  let ?e = "bitlen a - bitlen b"
  note A = int_pow2_bounds [OF a] and B = int_pow2_bounds [OF b]
  have bpos: "(0::rat) < of_int b" using b by simp
  have "x * of_int b < pow2 (bitlen a)" using A(2) x bpos by simp
  also have "\<dots> = pow2 (?e + 1) * pow2 (bitlen b - 1)" by (simp flip: pow2_add)
  also have "\<dots> \<le> pow2 (?e + 1) * of_int b" using B(1) by simp
  finally have up: "x < pow2 (?e + 1)" using bpos by simp
  have "pow2 (?e - 1) * of_int b < pow2 (?e - 1) * pow2 (bitlen b)" using B(2) by simp
  also have "\<dots> = pow2 (bitlen a - 1)" by (simp flip: pow2_add)
  also have "\<dots> \<le> x * of_int b" using A(1) x bpos by simp
  finally have lo: "pow2 (?e - 1) < x" using bpos by simp
  have il: "ilog2 x = (if pow2 ?e \<le> x then ?e else ?e - 1)"
    by (simp add: ilog2_def q)
  show "pow2 (ilog2 x) \<le> x" using lo by (simp add: il)
  show "x < pow2 (ilog2 x + 1)" using up by (simp add: il)
qed

lemma ilog2_eqI:
  assumes "pow2 k \<le> x" "x < pow2 (k + 1)"
  shows "ilog2 x = k"
proof -
  have x: "0 < x" using assms(1) pow2_pos [of k] by linarith
  note b = ilog2_bounds [OF x]
  have "\<not> ilog2 x < k"
  proof
    assume "ilog2 x < k"
    then have "pow2 (ilog2 x + 1) \<le> pow2 k" by (intro pow2_mono) simp
    with b(2) assms(1) show False by linarith
  qed
  moreover have "\<not> k < ilog2 x"
  proof
    assume "k < ilog2 x"
    then have "pow2 (k + 1) \<le> pow2 (ilog2 x)" by (intro pow2_mono) simp
    with b(1) assms(2) show False by linarith
  qed
  ultimately show ?thesis by linarith
qed

lemma ilog2_mono:
  assumes "0 < x" "x \<le> y"
  shows "ilog2 x \<le> ilog2 y"
proof (rule ccontr)
  assume "\<not> ilog2 x \<le> ilog2 y"
  then have "pow2 (ilog2 y + 1) \<le> pow2 (ilog2 x)" by (intro pow2_mono) simp
  moreover have "0 < y" using assms by simp
  ultimately show False
    using ilog2_bounds(1) [OF assms(1)] ilog2_bounds(2) [OF \<open>0 < y\<close>] assms(2) by linarith
qed

lemma round_half_even_of_int [simp]: "round_half_even (of_int k) = k"
  by (simp add: round_half_even_def)

lemma round_half_even_mono:
  assumes "x \<le> y"
  shows "round_half_even x \<le> round_half_even y"
proof -
  have fx: "\<lfloor>x\<rfloor> \<le> \<lfloor>y\<rfloor>" using assms by (rule floor_mono)
  have lo: "\<lfloor>y\<rfloor> \<le> round_half_even y"
    by (simp add: round_half_even_def Let_def)
  have hi: "round_half_even x \<le> \<lfloor>x\<rfloor> + 1"
    by (simp add: round_half_even_def Let_def)
  show ?thesis
  proof (cases "\<lfloor>x\<rfloor> < \<lfloor>y\<rfloor>")
    case True
    with lo hi show ?thesis by linarith
  next
    case False
    with fx have eq: "\<lfloor>x\<rfloor> = \<lfloor>y\<rfloor>" by simp
    have "x - of_int \<lfloor>y\<rfloor> \<le> y - of_int \<lfloor>y\<rfloor>" using assms by simp
    then show ?thesis
      by (auto simp: round_half_even_def Let_def eq)
  qed
qed


lemma fl_pos:
  assumes "0 < x"
  shows "fl x = of_int (round_half_even (x / pow2 (ilog2 x - 52))) * pow2 (ilog2 x - 52)"
  using assms by (simp add: fl_def Let_def)

lemma fl_pos_bounds:
  assumes "0 < x"
  shows "pow2 (ilog2 x) \<le> fl x" and "fl x \<le> pow2 (ilog2 x + 1)"
proof -
  let ?e = "ilog2 x - 52"
  let ?y = "x / pow2 ?e"
  note b = ilog2_bounds [OF assms]
  have s1: "pow2 (ilog2 x) = pow2 52 * pow2 ?e" by (simp flip: pow2_add)
  have "ilog2 x + 1 = 53 + ?e" by simp
  then have s2: "pow2 (ilog2 x + 1) = pow2 53 * pow2 ?e" by (simp only: pow2_add)
  have "pow2 52 \<le> ?y" using b(1) by (simp add: s1 pos_le_divide_eq)
  then have "of_int (2 ^ 52) \<le> ?y" by (simp add: pow2_def)
  from round_half_even_mono [OF this]
  have lo: "2 ^ 52 \<le> round_half_even ?y" by (simp only: round_half_even_of_int)
  have "?y \<le> pow2 53" using b(2) by (simp add: s2 pos_divide_le_eq less_imp_le)
  then have "?y \<le> of_int (2 ^ 53)" by (simp add: pow2_def)
  from round_half_even_mono [OF this]
  have hi: "round_half_even ?y \<le> 2 ^ 53" by (simp only: round_half_even_of_int)
  have "(of_int (2 ^ 52) :: rat) \<le> of_int (round_half_even ?y)"
    using lo by (simp only: of_int_le_iff)
  then have "pow2 52 * pow2 ?e \<le> of_int (round_half_even ?y) * pow2 ?e"
    by (intro mult_right_mono) (simp_all add: pow2_def)
  then show "pow2 (ilog2 x) \<le> fl x" by (simp only: s1 fl_pos [OF assms])
  have "(of_int (round_half_even ?y) :: rat) \<le> of_int (2 ^ 53)"
    using hi by (simp only: of_int_le_iff)
  then have "of_int (round_half_even ?y) * pow2 ?e \<le> pow2 53 * pow2 ?e"
    by (intro mult_right_mono) (simp_all add: pow2_def)
  then show "fl x \<le> pow2 (ilog2 x + 1)" by (simp only: s2 fl_pos [OF assms])
qed

lemma fl_mono_pos:
  assumes "0 < x" "x \<le> y"
  shows "fl x \<le> fl y"
proof -
  have y: "0 < y" using assms by simp
  have le: "ilog2 x \<le> ilog2 y" using assms by (rule ilog2_mono)
  show ?thesis
  proof (cases "ilog2 x = ilog2 y")
    case True
    let ?e = "ilog2 y - 52"
    have "x / pow2 ?e \<le> y / pow2 ?e" using assms(2) by (simp add: divide_right_mono less_imp_le)
    from round_half_even_mono [OF this]
    have "(of_int (round_half_even (x / pow2 ?e)) :: rat) \<le> of_int (round_half_even (y / pow2 ?e))"
      by (simp only: of_int_le_iff)
    then have "of_int (round_half_even (x / pow2 ?e)) * pow2 ?e
                 \<le> of_int (round_half_even (y / pow2 ?e)) * pow2 ?e"
      by (intro mult_right_mono) (simp_all add: less_imp_le)
    then show ?thesis by (simp only: fl_pos [OF assms(1)] fl_pos [OF y] True)
  next
    case False
    with le have "ilog2 x + 1 \<le> ilog2 y" by simp
    then have "pow2 (ilog2 x + 1) \<le> pow2 (ilog2 y)" by (rule pow2_mono)
    with fl_pos_bounds(2) [OF assms(1)] fl_pos_bounds(1) [OF y] show ?thesis by linarith
  qed
qed

lemma fl_zero [simp]: "fl 0 = 0"
  by (simp add: fl_def)

lemma fl_minus: "fl (- x) = - fl x"
  by (simp add: fl_def Let_def)

lemma fl_pos_pos: "0 < x \<Longrightarrow> 0 < fl x"
  using fl_pos_bounds(1) [of x] pow2_pos [of "ilog2 x"] by linarith

text \<open>Rounding to the nearest double is monotone.\<close>

lemma fl_mono:
  assumes "x \<le> y"
  shows "fl x \<le> fl y"
proof -
  consider "0 < x" | "x = 0" "y = 0" | "x = 0" "0 < y" | "x < 0" "0 \<le> y" | "x < 0" "y < 0"
    using assms by linarith
  then show ?thesis
  proof cases
    case 1
    then show ?thesis using assms by (rule fl_mono_pos)
  next
    case 2
    then show ?thesis by simp
  next
    case 3
    then show ?thesis using fl_pos_pos [of y] by simp
  next
    case 4
    have "0 < fl (- x)" using 4 by (intro fl_pos_pos) simp
    then have "fl x < 0" by (simp add: fl_minus)
    moreover have "0 \<le> fl y"
      using 4 fl_pos_pos [of y] by (cases "y = 0") (simp_all add: less_imp_le)
    ultimately show ?thesis by linarith
  next
    case 5
    then have "fl (- y) \<le> fl (- x)" using assms by (intro fl_mono_pos) simp_all
    then show ?thesis by (simp add: fl_minus)
  qed
qed

lemma fl_eval:
  assumes "pow2 k \<le> x" "x < pow2 (k + 1)"
  shows "fl x = of_int (round_half_even (x / pow2 (k - 52))) * pow2 (k - 52)"
proof -
  have x: "0 < x" using assms(1) pow2_pos [of k] by linarith
  show ?thesis by (simp only: fl_pos [OF x] ilog2_eqI [OF assms])
qed

text \<open>A number with a significand below \<open>2 ^ 53\<close> is a double: rounding leaves it.\<close>

lemma pow2_ne0 [simp]: "pow2 e \<noteq> 0"
  using pow2_pos [of e] by linarith

lemma pow2_diff: "pow2 (a - b) = pow2 a / pow2 b"
proof -
  have "pow2 a = pow2 (a - b) * pow2 b" by (simp flip: pow2_add)
  then show ?thesis by simp
qed

lemma fl_exact_pos:
  assumes "0 < m" "m < 2 ^ 53"
  shows "fl (of_int m * pow2 j) = of_int m * pow2 j"
proof -
  let ?x = "of_int m * pow2 j"
  have x: "0 < ?x" using assms(1) by simp
  let ?s = "ilog2 ?x - 52"
  have "(of_int m :: rat) < of_int (2 ^ 53)" using assms(2) by (simp only: of_int_less_iff)
  then have "(of_int m :: rat) < pow2 53" by (simp add: pow2_def)
  then have "?x < pow2 53 * pow2 j" by (simp add: mult_strict_right_mono)
  then have up: "?x < pow2 (53 + j)" by (simp only: pow2_add)
  have "\<not> 53 + j \<le> ilog2 ?x"
  proof
    assume "53 + j \<le> ilog2 ?x"
    then have "pow2 (53 + j) \<le> pow2 (ilog2 ?x)" by (rule pow2_mono)
    with ilog2_bounds(1) [OF x] up show False by linarith
  qed
  then have d: "0 \<le> j - ?s" by simp
  have "?x / pow2 ?s = of_int m * pow2 (j - ?s)" by (simp add: pow2_diff)
  also have "\<dots> = of_int (m * 2 ^ nat (j - ?s))" using d by (simp add: pow2_def)
  finally have q: "?x / pow2 ?s = of_int (m * 2 ^ nat (j - ?s))" .
  have "fl ?x = of_int (round_half_even (?x / pow2 ?s)) * pow2 ?s"
    by (rule fl_pos [OF x])
  also have "\<dots> = of_int (m * 2 ^ nat (j - ?s)) * pow2 ?s"
    by (simp only: q round_half_even_of_int)
  also have "\<dots> = of_int m * pow2 (j - ?s) * pow2 ?s" using d by (simp add: pow2_def)
  also have "\<dots> = ?x" by (simp add: pow2_diff)
  finally show ?thesis .
qed

lemma fl_exact:
  assumes "\<bar>m\<bar> < 2 ^ 53"
  shows "fl (of_int m * pow2 j) = of_int m * pow2 j"
proof -
  consider "m = 0" | "0 < m" | "m < 0" by linarith
  then show ?thesis
  proof cases
    case 1
    then show ?thesis by simp
  next
    case 2
    with assms show ?thesis by (intro fl_exact_pos) simp_all
  next
    case 3
    with assms have "fl (of_int (- m) * pow2 j) = of_int (- m) * pow2 j"
      by (intro fl_exact_pos) simp_all
    then have "fl (- (of_int m * pow2 j)) = - (of_int m * pow2 j)" by simp
    then show ?thesis by (simp add: fl_minus)
  qed
qed

lemma floor_numeral_div:
  "\<lfloor>numeral a / numeral b :: rat\<rfloor> = numeral a div numeral b"
  using floor_divide_of_int_eq [of "numeral a" "numeral b", where ?'a = rat] by simp

section \<open>The column reference of \<^verbatim>\<open>record_egress\<close>\<close>

text \<open>
  The \<^verbatim>\<open>SELECT ... INTO\<close> of \<^verbatim>\<open>record_egress\<close> names \<^verbatim>\<open>egress_used_gb\<close> without a
  table over the join of \<^verbatim>\<open>egress_usage\<close> and \<^verbatim>\<open>clients\<close>, which both have a column
  of that name: the reference is ambiguous and the statement fails, whatever the rows.
  The procedure therefore ends after the upsert, with that error, and never reaches the
  computation of the percentage and the thresholds.
\<close>

lemma resolve_egress_used_gb:
  "resolve_column ''egress_used_gb'' [egress_usage_columns, clients_columns]
     = Inl (NonUniqueColumn ''egress_used_gb'')"
  by (simp add: resolve_column_def egress_usage_columns_def clients_columns_def)

lemma select_egress_and_limit_ambiguous:
  "select_egress_and_limit p m db = Inl (NonUniqueColumn ''egress_used_gb'')"
  unfolding select_egress_and_limit_def resolve_egress_used_gb by simp

lemma current_percent_ambiguous:
  "current_percent now p db = Inl (NonUniqueColumn ''egress_used_gb'')"
  by (simp add: current_percent_def select_egress_and_limit_ambiguous)

lemma record_egress_stops:
  "record_egress now i p b db =
     (case record_usage now p b db of
        Inl err \<Rightarrow> (Some err, db)
      | Inr db1 \<Rightarrow> (Some (NonUniqueColumn ''egress_used_gb''), db1))"
  by (simp add: record_egress_def current_percent_ambiguous split: sum.splits)

section \<open>Evaluation rules for the examples\<close>

lemmas ex_defs = ex_db_def ex_client_def ex_file_def ex_config_def ex_alert_def new_alert_def
  ex_egress_def ex_upload_def ex_download_def mid_march_def late_march_def mid_january_def

lemmas dec_defs = store_decimal_def round_div_def GB_def dec_10_2_max_def dec_12_4_max_def
  dec_5_2_max_def

lemmas egress_defs = record_egress_stops record_usage_def
  usage_percent_def check_thresholds_def to_gb4_def egress_key_def egress_of_def
  get_client_monthly_egress_def alert_exists_def alert_matches_def insert_alert_def

lemmas dt_defs = dt_less_def dt_ge_def dt_key_def month_start_def month_year_of_def
  created_since_def created_before_def

section \<open>The quota ledger\<close>

lemma set_storage_used_idem:
  "set_storage_used p v (set_storage_used p v c) = set_storage_used p v c"
  by (simp add: set_storage_used_def)

lemma cached_usage_set:
  "map storage_used_gb (filter (\<lambda>c. c_id c = p) (map (set_storage_used p v) cs))
     = map (\<lambda>_. v) (filter (\<lambda>c. c_id c = p) cs)"
  by (induction cs) (simp_all add: set_storage_used_def)

lemma others_set:
  "filter (\<lambda>c. c_id c \<noteq> p) (map (set_storage_used p v) cs) = filter (\<lambda>c. c_id c \<noteq> p) cs"
  by (induction cs) (simp_all add: set_storage_used_def)

lemma counted_bytes_clients [simp]:
  "counted_bytes p (db\<lparr>clients := cs\<rparr>) = counted_bytes p db"
  by (simp add: counted_bytes_def)

lemma counted_bytes_append:
  "counted_bytes p (db\<lparr>files := files db @ [f]\<rparr>)
     = counted_bytes p db + (if counted p f then size_bytes f else 0)"
  by (simp add: counted_bytes_def)

lemma counted_etag [simp]: "counted p (f\<lparr>s3_etag := e\<rparr>) = counted p f"
  by (simp add: counted_def)

lemma counted_bytes_etag:
  "counted_bytes p (db\<lparr>files := map (\<lambda>f. f\<lparr>s3_etag := g f\<rparr>) (files db)\<rparr>) = counted_bytes p db"
proof -
  have "map size_bytes (filter (counted p) (map (\<lambda>f. f\<lparr>s3_etag := g f\<rparr>) fs))
          = map size_bytes (filter (counted p) fs)" for fs
    by (induction fs) simp_all
  then show ?thesis by (simp add: counted_bytes_def)
qed

text \<open>
  C1 (as amended). \<^verbatim>\<open>recalculate_client_storage\<close> writes, into every row of the tenant,
  the sum of \<^verbatim>\<open>size_bytes\<close> over the tenant's records with \<^verbatim>\<open>type = 'file'\<close> and
  \<^verbatim>\<open>deleted_at IS NULL\<close>, divided by \<open>2 ^ 30\<close> and rounded to two decimal places (the
  \<^verbatim>\<open>DECIMAL(10,2)\<close> of the variable and of the column), provided the rounded value fits
  the column; the stored value is within 0.005 GB of the exact quotient, the rows of other
  tenants and the files are untouched, and a second call leaves the database, hence the
  usage value, as the first one did.
\<close>

theorem recalculate_writes_rounded_total:
  assumes "\<bar>round_div (counted_bytes p db * 100) GB\<bar> \<le> dec_10_2_max"
  shows "case recalculate_client_storage p db of
           Inl err \<Rightarrow> False
         | Inr db' \<Rightarrow>
             cached_usage p db' =
               map (\<lambda>_. round_div (counted_bytes p db * 100) GB) (cached_usage p db)
             \<and> \<bar>dec2_value (round_div (counted_bytes p db * 100) GB)
                  - of_int (counted_bytes p db) / 2 ^ 30\<bar> \<le> 1 / 200
             \<and> filter (\<lambda>c. c_id c \<noteq> p) (clients db') = filter (\<lambda>c. c_id c \<noteq> p) (clients db)
             \<and> files db' = files db
             \<and> recalculate_client_storage p db' = Inr db'"
proof -
  let ?v = "round_div (counted_bytes p db * 100) GB"
  let ?db' = "db\<lparr>clients := map (set_storage_used p ?v) (clients db)\<rparr>"
  have run: "recalculate_client_storage p db = Inr ?db'"
    using assms by (simp add: recalculate_client_storage_def store_decimal_def)
  have again: "recalculate_client_storage p ?db' = Inr ?db'"
    using assms
    by (simp add: recalculate_client_storage_def store_decimal_def set_storage_used_idem)
  have usage: "cached_usage p ?db' = map (\<lambda>_. ?v) (cached_usage p db)"
    by (simp add: cached_usage_def cached_usage_set)
  have others: "filter (\<lambda>c. c_id c \<noteq> p) (clients ?db') = filter (\<lambda>c. c_id c \<noteq> p) (clients db)"
    by (simp add: others_set)
  show ?thesis
    unfolding run sum.case
    using again usage others gb_rounding_error [of "counted_bytes p db"]
    by simp
qed

text \<open>
  The theorem on the tenant with a confirmed file of 1.5 GiB, a deleted file, a folder and
  a file of another tenant: the usage written is 1.50 GB.
\<close>

theorem recalculate_writes_rounded_total_witness:
  "\<bar>round_div (counted_bytes ''client-1'' mixed_files_db * 100) GB\<bar> \<le> dec_10_2_max
   \<and> (case recalculate_client_storage ''client-1'' mixed_files_db of
         Inl err \<Rightarrow> False
       | Inr db' \<Rightarrow> cached_usage ''client-1'' db' = [150]
           \<and> recalculate_client_storage ''client-1'' db' = Inr db')"
proof -
  have total: "counted_bytes ''client-1'' mixed_files_db = 1610612736"
    by (simp add: counted_bytes_def counted_def mixed_files_db_def ex_defs)
  have fits: "\<bar>round_div (counted_bytes ''client-1'' mixed_files_db * 100) GB\<bar> \<le> dec_10_2_max"
    by (simp add: total dec_defs)
  have before: "cached_usage ''client-1'' mixed_files_db = [0]"
    by (simp add: cached_usage_def mixed_files_db_def ex_defs)
  have v: "round_div 161061273600 GB = 150"
    by (simp add: dec_defs)
  show ?thesis
    using recalculate_writes_rounded_total [OF fits] fits
    by (simp add: total before v split: sum.splits)
qed

text \<open>
  C1 as stated fails: for a tenant whose only file has a million bytes the usage written
  is 0.00 GB, which is not the sum divided by \<open>2 ^ 30\<close>.
\<close>

theorem recalculate_not_exact_quotient:
  "recalculate_client_storage ''client-1'' small_file_db
       = Inr (small_file_db\<lparr>clients := [ex_client 10000 0 204800 active]\<rparr>)
   \<and> cached_usage ''client-1'' (small_file_db\<lparr>clients := [ex_client 10000 0 204800 active]\<rparr>)
       = [0]
   \<and> dec2_value 0 \<noteq> of_int (counted_bytes ''client-1'' small_file_db) / 2 ^ 30"
  by (simp add: recalculate_client_storage_def small_file_db_def counted_bytes_def counted_def
      set_storage_used_def cached_usage_def dec2_value_def ex_defs dec_defs)

text \<open>
  C7 (as amended). A file's size is counted toward the recalculated usage exactly while
  the record has \<^verbatim>\<open>type = 'file'\<close> and a null \<^verbatim>\<open>deleted_at\<close>, whatever its
  \<^verbatim>\<open>s3_etag\<close>: adding a record of the tenant adds its \<^verbatim>\<open>size_bytes\<close> to the sum
  whether or not the ETag is set, changing the ETags changes nothing, and the usage that
  \<^verbatim>\<open>recalculate_client_storage\<close> writes is that sum in GB (it fails only when the value
  does not fit the column).
\<close>

theorem live_files_count_whatever_the_etag:
  "counted_bytes p (db\<lparr>files := files db @ [f\<lparr>s3_etag := e\<rparr>]\<rparr>)
     = counted_bytes p db
       + (if f_client_id f = p \<and> f_type f = type_file \<and> deleted_at f = None
          then size_bytes f else 0)
   \<and> counted_bytes p (db\<lparr>files := map (\<lambda>f. f\<lparr>s3_etag := g f\<rparr>) (files db)\<rparr>)
     = counted_bytes p db
   \<and> (case recalculate_client_storage p db of
         Inl err \<Rightarrow> dec_10_2_max < \<bar>round_div (counted_bytes p db * 100) GB\<bar>
       | Inr db' \<Rightarrow> cached_usage p db'
           = map (\<lambda>_. round_div (counted_bytes p db * 100) GB) (cached_usage p db))"
proof -
  have a: "counted_bytes p (db\<lparr>files := files db @ [f\<lparr>s3_etag := e\<rparr>]\<rparr>)
     = counted_bytes p db
       + (if f_client_id f = p \<and> f_type f = type_file \<and> deleted_at f = None
          then size_bytes f else 0)"
    by (auto simp add: counted_bytes_append counted_def)
  have c: "(case recalculate_client_storage p db of
         Inl err \<Rightarrow> dec_10_2_max < \<bar>round_div (counted_bytes p db * 100) GB\<bar>
       | Inr db' \<Rightarrow> cached_usage p db'
           = map (\<lambda>_. round_div (counted_bytes p db * 100) GB) (cached_usage p db))"
    by (simp add: recalculate_client_storage_def store_decimal_def cached_usage_def
        cached_usage_set)
  show ?thesis using a c counted_bytes_etag by simp
qed

text \<open>
  The theorem on the record that upload initiation leaves when the upload is never
  confirmed: added to a tenant without files, its gibibyte is the counted sum.
\<close>

theorem live_files_count_whatever_the_etag_witness:
  "counted_bytes ''client-1''
     ((pending_upload_db\<lparr>files := []\<rparr>)\<lparr>files := [] @ [pending_file\<lparr>s3_etag := None\<rparr>]\<rparr>)
     = 1073741824"
  using live_files_count_whatever_the_etag
    [where p = "''client-1''" and db = "pending_upload_db\<lparr>files := []\<rparr>"
       and f = pending_file and e = None and g = s3_etag]
  by (simp add: counted_bytes_def pending_file_def ex_defs)

text \<open>
  What upload initiation leaves behind: when \<^verbatim>\<open>getUploadUrl\<close> succeeds, the files table
  has one more row, of the tenant, of type file, not deleted, without ETag, and with the
  size the request announced.
\<close>

lemma getUploadUrl_inserts_unconfirmed_row:
  assumes "getUploadUrl req i presigned db = (Inr resp, db')"
  shows "\<exists>row client cs rest. files db' = files db @ [row]
           \<and> select_client_with_config (u_userId req) db = (client, cs) # rest
           \<and> counted (c_id client) row \<and> s3_etag row = None
           \<and> size_bytes row = fileSize req"
  using assms
  by (auto simp: getUploadUrl_def insert_file_def logActivity_def counted_def Let_def
      split: list.splits prod.splits if_splits option.splits sum.splits)

lemma fl_1_gib: "fl 1073741824 = 1073741824"
  by (subst fl_eval [where k = 30]) (simp_all add: pow2_def round_half_even_def Let_def)

lemma fl_int_1: "fl 1 = 1"
  by (subst fl_eval [where k = 0]) (simp_all add: pow2_def round_half_even_def Let_def)

lemma fl_int_100: "fl 100 = 100"
  by (subst fl_eval [where k = 6]) (simp_all add: pow2_def round_half_even_def Let_def)

lemma one_gib_fits: "\<not> quota_exceeded (ex_client 10000 0 204800 active) 1073741824"
  by (simp add: quota_exceeded_def newStorageUsed_def parseFloat_def js_number_def js_add_def
      js_div_def GB_def ex_client_def fl_1_gib fl_int_1 fl_int_100)

text \<open>
  C7 as stated fails: an upload of 1 GiB is initiated for a tenant without files and never
  confirmed. The record that \<^verbatim>\<open>getUploadUrl\<close> inserts has no ETag, and
  \<^verbatim>\<open>recalculate_client_storage\<close> then writes 1.00 GB for the tenant, 0.00 GB without that
  record.
\<close>

theorem unconfirmed_upload_is_counted:
  "files (snd (getUploadUrl (ex_upload 1073741824) ''f1'' (Some ''https://s3.example.com/put'')
                 (pending_upload_db\<lparr>files := []\<rparr>))) = [pending_file]
   \<and> s3_etag pending_file = None
   \<and> recalculate_client_storage ''client-1'' pending_upload_db
       = Inr (pending_upload_db\<lparr>clients := [ex_client 10000 100 204800 active]\<rparr>)
   \<and> recalculate_client_storage ''client-1'' (pending_upload_db\<lparr>files := []\<rparr>)
       = Inr (pending_upload_db\<lparr>files := [], clients := [ex_client 10000 0 204800 active]\<rparr>)"
proof -
  have up: "files (snd (getUploadUrl (ex_upload 1073741824) ''f1''
                 (Some ''https://s3.example.com/put'') (pending_upload_db\<lparr>files := []\<rparr>)))
        = [pending_file]"
    using one_gib_fits
    by (simp add: getUploadUrl_def select_client_with_config_def not_verified_def
        build_path_def generateS3Key_def insert_file_def logActivity_def pending_upload_db_def
        pending_file_def Let_def ex_defs)
  have rest: "s3_etag pending_file = None
   \<and> recalculate_client_storage ''client-1'' pending_upload_db
       = Inr (pending_upload_db\<lparr>clients := [ex_client 10000 100 204800 active]\<rparr>)
   \<and> recalculate_client_storage ''client-1'' (pending_upload_db\<lparr>files := []\<rparr>)
       = Inr (pending_upload_db\<lparr>files := [], clients := [ex_client 10000 0 204800 active]\<rparr>)"
    by (simp add: recalculate_client_storage_def pending_upload_db_def pending_file_def
        counted_bytes_def counted_def set_storage_used_def ex_defs dec_defs)
  show ?thesis using up rest by simp
qed

section \<open>The egress meter\<close>

lemma egress_of_Nil [simp]: "egress_of p m [] = 0"
  by (simp add: egress_of_def)

lemma egress_of_Cons:
  "egress_of p m (e # es) = (if egress_key p m e then egress_used_gb e else egress_of p m es)"
  by (simp add: egress_of_def)

lemma egress_key_update [simp]:
  "egress_key p m (e\<lparr>egress_used_gb := v\<rparr>) = egress_key p m e"
  by (simp add: egress_key_def)

lemma upsert_egress_adds:
  assumes "ce \<or> filter (egress_key p m) es \<noteq> []"
    and "\<bar>egress_of p m es + v\<bar> \<le> dec_12_4_max"
  shows "\<exists>es'. upsert_egress ce p m v es = Inr es'
           \<and> egress_of p m es' = egress_of p m es + v
           \<and> (\<forall>p' m'. (p', m') \<noteq> (p, m) \<longrightarrow> egress_of p' m' es' = egress_of p' m' es)
           \<and> length (filter (egress_key p m) es')
               = max 1 (length (filter (egress_key p m) es))"
  using assms
proof (induction es)
  case Nil
  then show ?case
    by (auto simp: egress_of_Cons egress_key_def)
next
  case (Cons e es)
  show ?case
  proof (cases "egress_key p m e")
    case True
    with Cons.prems show ?thesis
      by (auto simp: egress_of_Cons store_decimal_def egress_key_def)
  next
    case False
    with Cons.prems have "ce \<or> filter (egress_key p m) es \<noteq> []"
      and "\<bar>egress_of p m es + v\<bar> \<le> dec_12_4_max"
      by (auto simp: egress_of_Cons)
    from Cons.IH [OF this] obtain es' where
      "upsert_egress ce p m v es = Inr es'"
      "egress_of p m es' = egress_of p m es + v"
      "\<forall>p' m'. (p', m') \<noteq> (p, m) \<longrightarrow> egress_of p' m' es' = egress_of p' m' es"
      "length (filter (egress_key p m) es') = max 1 (length (filter (egress_key p m) es))"
      by blast
    with False show ?thesis
      by (auto simp: egress_of_Cons)
  qed
qed

lemma to_gb4_nonneg: "0 \<le> b \<Longrightarrow> 0 \<le> to_gb4 b"
  by (simp add: to_gb4_def round_div_nonneg_eq GB_def pos_imp_zdiv_nonneg_iff)

lemma check_thresholds_tables [simp]:
  "egress_usage (check_thresholds now i p v db) = egress_usage db"
  "clients (check_thresholds now i p v db) = clients db"
  "files (check_thresholds now i p v db) = files db"
  by (simp_all add: check_thresholds_def insert_alert_def split: option.splits)

lemma record_egress_tables:
  "record_usage now p b db = Inr db1 \<Longrightarrow>
     egress_usage (snd (record_egress now i p b db)) = egress_usage db1
     \<and> clients (snd (record_egress now i p b db)) = clients db1"
  by (simp add: record_egress_stops)

lemma record_usage_adds:
  assumes "list_ex (\<lambda>c. c_id c = p) (clients db)"
    and "\<bar>to_gb4 b\<bar> \<le> dec_12_4_max"
    and "\<bar>egress_of p (month_year_of now) (egress_usage db) + to_gb4 b\<bar> \<le> dec_12_4_max"
  shows "\<exists>es'. record_usage now p b db = Inr (db\<lparr>egress_usage := es'\<rparr>)
           \<and> egress_of p (month_year_of now) es'
               = egress_of p (month_year_of now) (egress_usage db) + to_gb4 b
           \<and> (\<forall>p' m'. (p', m') \<noteq> (p, month_year_of now) \<longrightarrow>
                 egress_of p' m' es' = egress_of p' m' (egress_usage db))
           \<and> length (filter (egress_key p (month_year_of now)) es')
               = max 1 (length (filter (egress_key p (month_year_of now)) (egress_usage db)))"
proof -
  from upsert_egress_adds [of "list_ex (\<lambda>c. c_id c = p) (clients db)" p "month_year_of now"
      "egress_usage db" "to_gb4 b"] assms
  obtain es' where u: "upsert_egress (list_ex (\<lambda>c. c_id c = p) (clients db)) p (month_year_of now)
        (to_gb4 b) (egress_usage db) = Inr es'"
    and rest: "egress_of p (month_year_of now) es'
               = egress_of p (month_year_of now) (egress_usage db) + to_gb4 b"
      "\<forall>p' m'. (p', m') \<noteq> (p, month_year_of now) \<longrightarrow>
                 egress_of p' m' es' = egress_of p' m' (egress_usage db)"
      "length (filter (egress_key p (month_year_of now)) es')
               = max 1 (length (filter (egress_key p (month_year_of now)) (egress_usage db)))"
    by blast
  have "record_usage now p b db = Inr (db\<lparr>egress_usage := es'\<rparr>)"
    using assms(2) u by (simp add: record_usage_def store_decimal_def)
  with rest show ?thesis by blast
qed

lemma record_egress_adds:
  assumes "list_ex (\<lambda>c. c_id c = p) (clients db)"
    and "0 \<le> b"
    and "0 \<le> egress_of p (month_year_of now) (egress_usage db)"
    and "egress_of p (month_year_of now) (egress_usage db) + to_gb4 b \<le> dec_12_4_max"
  shows "egress_of p (month_year_of now) (egress_usage (snd (record_egress now i p b db)))
           = egress_of p (month_year_of now) (egress_usage db) + to_gb4 b"
    and "(p', m') \<noteq> (p, month_year_of now) \<Longrightarrow>
           egress_of p' m' (egress_usage (snd (record_egress now i p b db)))
             = egress_of p' m' (egress_usage db)"
    and "length (filter (egress_key p (month_year_of now))
                   (egress_usage (snd (record_egress now i p b db))))
           = max 1 (length (filter (egress_key p (month_year_of now)) (egress_usage db)))"
    and "clients (snd (record_egress now i p b db)) = clients db"
proof -
  have g: "0 \<le> to_gb4 b" using assms(2) by (rule to_gb4_nonneg)
  have f1: "\<bar>to_gb4 b\<bar> \<le> dec_12_4_max" using g assms(3,4) by simp
  have f2: "\<bar>egress_of p (month_year_of now) (egress_usage db) + to_gb4 b\<bar> \<le> dec_12_4_max"
    using g assms(3,4) by simp
  from record_usage_adds [OF assms(1) f1 f2]
  obtain es' where r: "record_usage now p b db = Inr (db\<lparr>egress_usage := es'\<rparr>)"
    and rest: "egress_of p (month_year_of now) es'
               = egress_of p (month_year_of now) (egress_usage db) + to_gb4 b"
      "\<forall>p' m'. (p', m') \<noteq> (p, month_year_of now) \<longrightarrow>
                 egress_of p' m' es' = egress_of p' m' (egress_usage db)"
      "length (filter (egress_key p (month_year_of now)) es')
               = max 1 (length (filter (egress_key p (month_year_of now)) (egress_usage db)))"
    by blast
  note t = record_egress_tables [OF r, where i = i]
  show "egress_of p (month_year_of now) (egress_usage (snd (record_egress now i p b db)))
           = egress_of p (month_year_of now) (egress_usage db) + to_gb4 b"
    using t rest by simp
  show "(p', m') \<noteq> (p, month_year_of now) \<Longrightarrow>
           egress_of p' m' (egress_usage (snd (record_egress now i p b db)))
             = egress_of p' m' (egress_usage db)"
    using t rest by (cases m') auto
  show "length (filter (egress_key p (month_year_of now))
                   (egress_usage (snd (record_egress now i p b db))))
           = max 1 (length (filter (egress_key p (month_year_of now)) (egress_usage db)))"
    using t rest by simp
  show "clients (snd (record_egress now i p b db)) = clients db"
    using t by simp
qed

text \<open>
  C2 (as amended). For every existing tenant and every sequence of recorded downloads of
  non-negative sizes within one calendar month, \<^verbatim>\<open>record_egress\<close> upserts additively
  into the (tenant, month) row, inserting at the GB value when there is no row and adding
  to the existing value otherwise, each size being converted to GB and rounded to four
  decimal places (\<^verbatim>\<open>DECIMAL(12,4)\<close>) on its own: as long as the total fits the column,
  the current-month usage afterwards is the usage before plus the sum of the converted
  sizes, the rows of other tenants and months keep their values, no second row for the key
  appears, and \<^verbatim>\<open>get_client_monthly_egress\<close> is 0 for a tenant without a row for the
  month. (The upsert is the first statement of the procedure; the error that the call
  raises afterwards leaves it in place.)
\<close>

theorem record_all_adds_converted_sizes:
  assumes "list_ex (\<lambda>c. c_id c = p) (clients db)"
    and "list_all (\<lambda>(now, i, b). month_year_of now = m \<and> 0 \<le> b) calls"
    and "0 \<le> egress_of p m (egress_usage db)"
    and "egress_of p m (egress_usage db) + sum_list (map (\<lambda>(now, i, b). to_gb4 b) calls)
           \<le> dec_12_4_max"
  shows "egress_of p m (egress_usage (record_all calls p db))
           = egress_of p m (egress_usage db) + sum_list (map (\<lambda>(now, i, b). to_gb4 b) calls)
         \<and> (\<forall>now. month_year_of now = m \<longrightarrow>
               get_client_monthly_egress now p (record_all calls p db)
                 = get_client_monthly_egress now p db
                   + sum_list (map (\<lambda>(now, i, b). to_gb4 b) calls))
         \<and> (\<forall>now. filter (egress_key p (month_year_of now)) (egress_usage db) = [] \<longrightarrow>
               get_client_monthly_egress now p db = 0)
         \<and> (\<forall>p' m'. (p', m') \<noteq> (p, m) \<longrightarrow>
               egress_of p' m' (egress_usage (record_all calls p db))
                 = egress_of p' m' (egress_usage db))
         \<and> length (filter (egress_key p m) (egress_usage (record_all calls p db)))
             = (if calls = [] then length (filter (egress_key p m) (egress_usage db))
                else max 1 (length (filter (egress_key p m) (egress_usage db))))"
  using assms
proof (induction calls arbitrary: db)
  case Nil
  then show ?case
    by (simp add: get_client_monthly_egress_def egress_of_def)
next
  case (Cons c calls)
  obtain now i b where c: "c = (now, i, b)" by (cases c)
  let ?db1 = "snd (record_egress now i p b db)"
  from Cons.prems(2) c have m: "month_year_of now = m" and b: "0 \<le> b"
    and rest: "list_all (\<lambda>(now, i, b). month_year_of now = m \<and> 0 \<le> b) calls"
    by simp_all
  have nn: "0 \<le> sum_list (map (\<lambda>(now, i, b). to_gb4 b) calls)"
    using rest by (induction calls) (auto simp: to_gb4_nonneg)
  have g: "0 \<le> to_gb4 b" using b by (rule to_gb4_nonneg)
  have fit1: "egress_of p (month_year_of now) (egress_usage db) + to_gb4 b \<le> dec_12_4_max"
    using Cons.prems(4) nn c m by simp
  have start: "0 \<le> egress_of p (month_year_of now) (egress_usage db)"
    using Cons.prems(3) m by simp
  note step = record_egress_adds [OF Cons.prems(1) b start fit1, where i = i]
  have e1: "egress_of p m (egress_usage ?db1) = egress_of p m (egress_usage db) + to_gb4 b"
    using step(1) m by simp
  have cl: "list_ex (\<lambda>c. c_id c = p) (clients ?db1)"
    using step(4) Cons.prems(1) by simp
  have s1: "0 \<le> egress_of p m (egress_usage ?db1)"
    using e1 g Cons.prems(3) by simp
  have f1: "egress_of p m (egress_usage ?db1) + sum_list (map (\<lambda>(now, i, b). to_gb4 b) calls)
           \<le> dec_12_4_max"
    using e1 Cons.prems(4) c by simp
  note ih = Cons.IH [OF cl rest s1 f1]
  have others: "(p', m') \<noteq> (p, m) \<Longrightarrow>
      egress_of p' m' (egress_usage ?db1) = egress_of p' m' (egress_usage db)" for p' m'
    using step(2) [where p' = p' and m' = m'] m by simp
  have len: "length (filter (egress_key p m) (egress_usage ?db1))
           = max 1 (length (filter (egress_key p m) (egress_usage db)))"
    using step(3) m by simp
  show ?case
    using ih e1 others len c
    by (auto simp: get_client_monthly_egress_def egress_of_def)
qed

text \<open>
  Scenario D run in sequence: two downloads of 10 GiB in March by a tenant without a row
  leave 20.0000 GB.
\<close>

theorem record_all_adds_converted_sizes_witness:
  "get_client_monthly_egress late_march ''client-1''
     (record_all [(mid_march, ''n1'', 10737418240), (late_march, ''n2'', 10737418240)]
        ''client-1'' no_egress_db) = 200000"
proof -
  let ?calls = "[(mid_march, ''n1'', 10737418240 :: int), (late_march, ''n2'', 10737418240)]"
  have h1: "list_ex (\<lambda>c. c_id c = ''client-1'') (clients no_egress_db)"
    by (simp add: no_egress_db_def ex_defs)
  have h2: "list_all (\<lambda>(now, i, b). month_year_of now = (2026, 3) \<and> 0 \<le> b) ?calls"
    by (simp add: ex_defs dt_defs)
  have e0: "egress_of ''client-1'' (2026, 3) (egress_usage no_egress_db) = 0"
    by (simp add: no_egress_db_def ex_defs egress_of_def)
  have h3: "0 \<le> egress_of ''client-1'' (2026, 3) (egress_usage no_egress_db)"
    by (simp add: e0)
  have sizes: "sum_list (map (\<lambda>(now, i, b). to_gb4 b) ?calls) = 200000"
    by (simp add: to_gb4_def dec_defs)
  have h4: "egress_of ''client-1'' (2026, 3) (egress_usage no_egress_db)
              + sum_list (map (\<lambda>(now, i, b). to_gb4 b) ?calls) \<le> dec_12_4_max"
    by (simp only: e0 sizes) (simp add: dec_defs)
  have "egress_of ''client-1'' (2026, 3) (egress_usage (record_all ?calls ''client-1'' no_egress_db))
          = egress_of ''client-1'' (2026, 3) (egress_usage no_egress_db)
            + sum_list (map (\<lambda>(now, i, b). to_gb4 b) ?calls)"
    by (rule record_all_adds_converted_sizes [OF h1 h2 h3 h4, THEN conjunct1])
  then show ?thesis
    by (simp only: e0 sizes) (simp add: get_client_monthly_egress_def dt_defs ex_defs)
qed

text \<open>
  C2 as stated fails: after three downloads of 40000 bytes in March the current-month
  usage is 0.0000 GB, while the sum of the sizes converted to GB is 0.0001 GB (and the
  exact quotient is not zero either).
\<close>

theorem small_downloads_are_not_added_up:
  "get_client_monthly_egress late_march ''client-1''
       (record_all [(mid_march, ''n1'', 40000), (mid_march, ''n2'', 40000),
                    (late_march, ''n3'', 40000)] ''client-1'' no_egress_db) = 0
   \<and> to_gb4 (40000 + 40000 + 40000) = 1
   \<and> dec4_value 0 \<noteq> of_int (40000 + 40000 + 40000) / 2 ^ 30"
  by (simp add: no_egress_db_def egress_defs ex_defs dec_defs dt_defs dec4_value_def)

section \<open>The alert engine\<close>

lemma record_usage_alerts:
  "record_usage now p b db = Inr db1 \<Longrightarrow> alerts db1 = alerts db \<and> clients db1 = clients db"
  by (auto simp: record_usage_def split: sum.splits)

lemma record_egress_alerts: "alerts (snd (record_egress now i p b db)) = alerts db"
proof (cases "record_usage now p b db")
  case (Inl err)
  then show ?thesis by (simp add: record_egress_stops)
next
  case (Inr db1)
  then show ?thesis using record_usage_alerts [OF Inr] by (simp add: record_egress_stops)
qed

lemma record_egress_fails: "fst (record_egress now i p b db) \<noteq> None"
  by (cases "record_usage now p b db") (simp_all add: record_egress_stops)

text \<open>
  No call of \<^verbatim>\<open>record_egress\<close> reaches its threshold block, so every call, and every
  sequence of calls, leaves the alerts table as it was.
\<close>

lemma record_all_alerts: "alerts (record_all calls p db) = alerts db"
  by (induction calls arbitrary: db) (auto simp: record_egress_alerts)

text \<open>
  C4, on Scenario B. With a limit of 2048.00 GB and 1920.0000 GB used, a download of
  1 GiB: the upsert leaves 1921.0000 GB, which is 93.80 percent of the limit, and the
  call then fails at the ambiguous column. No \<^verbatim>\<open>egress_warning\<close> of threshold 90, and no
  alert at all, is created.
\<close>

theorem scenario_b_creates_no_alert:
  "record_egress mid_march ''n1'' ''client-1'' 1073741824 scenario_b_db
     = (Some (NonUniqueColumn ''egress_used_gb''),
        scenario_b_db\<lparr>egress_usage := [ex_egress 19210000]\<rparr>)
   \<and> alerts (scenario_b_db\<lparr>egress_usage := [ex_egress 19210000]\<rparr>) = []
   \<and> usage_percent 19210000 204800 = Inr (Some 9380)"
  by (simp add: record_egress_stops record_usage_def to_gb4_def egress_key_def usage_percent_def
      scenario_b_db_def ex_defs dec_defs dt_defs)

text \<open>
  The thresholds as they are written, for the case that they were reached. At most one
  alert is appended, by descending first match: for a percentage of at least 90.00 and
  below 100.00 it is the warning at threshold 90, if none exists for the tenant since the
  start of the month, and never one at threshold 80.
\<close>

lemma check_thresholds_alerts:
  "\<exists>new. alerts (check_thresholds now i p v db) = alerts db @ new \<and> length new \<le> 1"
  by (simp add: check_thresholds_def insert_alert_def split: option.splits)

lemma check_thresholds_first_match:
  assumes "9000 \<le> v" "v < 10000"
  shows "alerts (check_thresholds now i p (Some v) db)
           = (if alert_exists now p egress_warning 90 db then alerts db
              else alerts db @ [new_alert i p egress_warning
                     ''You have used 90% of your free egress limit'' 90 now])"
  using assms by (simp add: check_thresholds_def insert_alert_def)

text \<open>
  The branches for 80 and 90 never bring the number of warnings of one tenant and
  threshold since the start of the month above one (or above what it was); the branch
  for 100 appends an \<^verbatim>\<open>egress_limit\<close> alert whatever alerts exist.
\<close>

lemma not_ex_filter: "\<not> list_ex P xs \<Longrightarrow> filter P xs = []"
  by (induction xs) auto

lemma check_thresholds_dedup:
  assumes "t = 80 \<or> t = 90"
  shows "length (filter (alert_matches now p egress_warning t)
                  (alerts (check_thresholds now i p v db)))
           \<le> max 1 (length (filter (alert_matches now p egress_warning t) (alerts db)))"
  using assms
  by (auto simp: check_thresholds_def insert_alert_def alert_exists_def new_alert_def
      alert_matches_def [of now p egress_warning _ "\<lparr>a_id = _, a_client_id = _, alert_type = _,
        message = _, threshold_percent = _, is_read = _, a_created_at = _\<rparr>"]
      dest: not_ex_filter split: option.splits)

lemma check_thresholds_limit_repeats:
  assumes "10000 \<le> v"
  shows "alerts (check_thresholds now i p (Some v) db)
           = alerts db @ [new_alert i p egress_limit
                            ''You have exceeded your free egress limit!'' 100 now]"
  using assms by (simp add: check_thresholds_def insert_alert_def)


text \<open>
  The percentage is held with two decimals: 2047.9200 GB of 2048.00 GB, 99.996 percent,
  is 100.00.
\<close>

lemma usage_percent_is_rounded: "usage_percent 20479200 204800 = Inr (Some 10000)"
  by (simp add: usage_percent_def dec_defs)

section \<open>The monthly reset\<close>




section \<open>The access gate\<close>

lemmas fl_eval_simps = pow2_def round_half_even_def Let_def floor_numeral_div

lemma parseFloat_mono:
  assumes "dec2_value l \<le> dec4_value e"
  shows "parseFloat 2 l \<le> parseFloat 4 e"
proof -
  have "(of_int l :: rat) / 10 ^ 2 \<le> of_int e / 10 ^ 4"
    using assms by (simp add: dec2_value_def dec4_value_def)
  then show ?thesis unfolding parseFloat_def by (rule fl_mono)
qed

lemma getUploadUrl_failure_keeps_db:
  "fst (getUploadUrl req i presigned db) = Inl e \<Longrightarrow> snd (getUploadUrl req i presigned db) = db"
  by (auto simp: getUploadUrl_def Let_def split: list.splits prod.splits if_splits option.splits
      sum.splits)

text \<open>
  The gates of \<^verbatim>\<open>getUploadUrl\<close> for the tenant of the requesting user, in the order of
  the controller: \<^verbatim>\<open>ACCOUNT_SUSPENDED\<close> when the status is not active, then
  \<^verbatim>\<open>STORAGE_NOT_CONFIGURED\<close> when there is no verified storage configuration, then
  \<^verbatim>\<open>QUOTA_EXCEEDED\<close> when the test of the controller on the sum says so. Whatever the
  failure, the database, so the files table, is left as it was: no record is created.
\<close>

lemma getUploadUrl_gate_order:
  assumes "select_client_with_config (u_userId req) db = (client, cs) # rest"
  shows "(status client \<noteq> active \<longrightarrow>
            getUploadUrl req i presigned db = (Inl ACCOUNT_SUSPENDED, db))
       \<and> (status client = active \<and> not_verified cs \<longrightarrow>
            getUploadUrl req i presigned db = (Inl STORAGE_NOT_CONFIGURED, db))
       \<and> (status client = active \<and> \<not> not_verified cs \<and> quota_exceeded client (fileSize req) \<longrightarrow>
            getUploadUrl req i presigned db = (Inl QUOTA_EXCEEDED, db))
       \<and> (\<forall>e. fst (getUploadUrl req i presigned db) = Inl e \<longrightarrow>
            snd (getUploadUrl req i presigned db) = db
            \<and> files (snd (getUploadUrl req i presigned db)) = files db)"
proof -
  have keep: "\<forall>e. fst (getUploadUrl req i presigned db) = Inl e \<longrightarrow>
            snd (getUploadUrl req i presigned db) = db
            \<and> files (snd (getUploadUrl req i presigned db)) = files db"
    using getUploadUrl_failure_keeps_db [of req i presigned db] by simp
  show ?thesis
    using assms keep by (simp add: getUploadUrl_def)
qed


lemma fl_int_150: "fl 150 = 150"
  by (subst fl_eval [where k = 7]) (simp_all add: fl_eval_simps)

lemma fl_150_gib: "fl 161061273600 = 161061273600"
  by (subst fl_eval [where k = 37]) (simp_all add: fl_eval_simps)

lemma scenario_a_exceeds: "quota_exceeded (ex_client 10000 0 204800 active) 161061273600"
  by (simp add: quota_exceeded_def newStorageUsed_def parseFloat_def js_number_def js_add_def
      js_div_def GB_def ex_client_def fl_150_gib fl_int_150 fl_int_100)

text \<open>
  Scenario A: quota 100.00 GB, usage 0.00 GB, an upload of 150 GiB fails with
  \<^verbatim>\<open>QUOTA_EXCEEDED\<close> and the files table stays empty.
\<close>

lemma scenario_a_is_refused:
  "select_client_with_config (u_userId (ex_upload 161061273600)) no_egress_db
     = [(ex_client 10000 0 204800 active, Some (ex_config True))]
   \<and> getUploadUrl (ex_upload 161061273600) ''f-new'' (Some ''https://s3.example.com/put'')
       no_egress_db = (Inl QUOTA_EXCEEDED, no_egress_db)
   \<and> files no_egress_db = []"
proof -
  have sel: "select_client_with_config (u_userId (ex_upload 161061273600)) no_egress_db
     = (ex_client 10000 0 204800 active, Some (ex_config True)) # []"
    by (simp add: select_client_with_config_def no_egress_db_def ex_defs)
  have st: "status (ex_client 10000 0 204800 active) = active"
    by (simp add: ex_client_def)
  have ver: "\<not> not_verified (Some (ex_config True))"
    by (simp add: not_verified_def ex_config_def)
  have sz: "fileSize (ex_upload 161061273600) = 161061273600"
    by (simp add: ex_upload_def)
  from getUploadUrl_gate_order [OF sel, of "''f-new''" "Some ''https://s3.example.com/put''"]
  have "getUploadUrl (ex_upload 161061273600) ''f-new'' (Some ''https://s3.example.com/put'')
       no_egress_db = (Inl QUOTA_EXCEEDED, no_egress_db)"
    using st ver scenario_a_exceeds by (simp add: sz)
  then show ?thesis
    using sel by (simp add: no_egress_db_def ex_db_def)
qed

text \<open>
  The status comes first: a suspended tenant without a verified storage configuration is
  answered \<^verbatim>\<open>ACCOUNT_SUSPENDED\<close>.
\<close>

lemma suspended_unverified_gets_account_suspended:
  "select_client_with_config ''user-1'' suspended_unverified_db
     = [(ex_client 10000 0 204800 suspended, Some (ex_config False))]
   \<and> not_verified (Some (ex_config False))
   \<and> getUploadUrl (ex_upload 1024) ''f-new'' (Some ''https://s3.example.com/put'')
       suspended_unverified_db = (Inl ACCOUNT_SUSPENDED, suspended_unverified_db)
   \<and> Inl ACCOUNT_SUSPENDED \<noteq> (Inl STORAGE_NOT_CONFIGURED :: app_error + upload_response)"
  by (simp add: getUploadUrl_def select_client_with_config_def not_verified_def
      suspended_unverified_db_def ex_defs)

lemma fl_42949673: "fl 42949673 = 42949673"
  by (subst fl_eval [where k = 25]) (simp_all add: fl_eval_simps)

lemma fl_42949673_gb: "fl (42949673 / 1073741824) = 42949673 / 1073741824"
  by (subst fl_eval [where k = "- 5"]) (simp_all add: fl_eval_simps)

lemma fl_26214404: "fl (6553601 / 25) = 4503600314565263 / 2 ^ 34"
  by (subst fl_eval [where k = 18]) (simp_all add: fl_eval_simps)

lemma fl_26214408: "fl (6553602 / 25) = 4503601001760031 / 2 ^ 34"
  by (subst fl_eval [where k = 18]) (simp_all add: fl_eval_simps)

lemma fl_26214404_plus:
  "fl (4503601001760031 / 17179869184) = 4503601001760031 / 17179869184"
  by (subst fl_eval [where k = 18]) (simp_all add: fl_eval_simps)

lemma large_quota_not_exceeded:
  "\<not> quota_exceeded (ex_client 26214408 26214404 204800 active) 42949673"
proof -
  have "newStorageUsed (ex_client 26214408 26214404 204800 active) 42949673
          = 4503601001760031 / 17179869184"
    by (simp only: newStorageUsed_def parseFloat_def js_number_def js_add_def js_div_def)
       (simp add: GB_def ex_client_def fl_42949673 fl_42949673_gb fl_26214404
          fl_26214404_plus)
  moreover have "parseFloat 2 (storage_quota_gb (ex_client 26214408 26214404 204800 active))
          = 4503601001760031 / 2 ^ 34"
    by (simp add: parseFloat_def ex_client_def fl_26214408)
  ultimately show ?thesis by (simp add: quota_exceeded_def)
qed

text \<open>
  C5, at a large quota. A tenant with verified storage has used 262144.04 GB of a quota of
  262144.08 GB and asks to upload 42949673 bytes. Usage plus size, 262144.04 GB and
  42949673 / 2^30 GB, exceeds the quota, and the request is authorized: the record is
  inserted. The double for 262144.04 plus the double for the size is the double for
  262144.08, so the test \<^verbatim>\<open>newStorageUsed > parseFloat(client.storage_quota_gb)\<close> is false.
\<close>

theorem over_quota_upload_is_authorized:
  "dec2_value 26214408 < dec2_value 26214404 + 42949673 / 2 ^ 30
   \<and> fst (getUploadUrl (ex_upload 42949673) ''f-new'' (Some ''https://s3.example.com/put'')
          large_quota_db)
     = Inr \<lparr>uploadUrl = ''https://s3.example.com/put'', fileId = ''f-new'',
            s3Key = ''report.bin/report.bin'', expiresIn = 3600\<rparr>
   \<and> files (snd (getUploadUrl (ex_upload 42949673) ''f-new''
                   (Some ''https://s3.example.com/put'') large_quota_db))
     = [ex_file ''f-new'' 42949673 type_file None None]"
proof -
  have run: "fst (getUploadUrl (ex_upload 42949673) ''f-new'' (Some ''https://s3.example.com/put'')
          large_quota_db)
     = Inr \<lparr>uploadUrl = ''https://s3.example.com/put'', fileId = ''f-new'',
            s3Key = ''report.bin/report.bin'', expiresIn = 3600\<rparr>
   \<and> files (snd (getUploadUrl (ex_upload 42949673) ''f-new''
                   (Some ''https://s3.example.com/put'') large_quota_db))
     = [ex_file ''f-new'' 42949673 type_file None None]"
    using large_quota_not_exceeded
    by (simp add: getUploadUrl_def select_client_with_config_def not_verified_def
        build_path_def generateS3Key_def insert_file_def logActivity_def large_quota_db_def
        Let_def ex_defs)
  have "dec2_value 26214408 < dec2_value 26214404 + 42949673 / 2 ^ 30"
    by (simp add: dec2_value_def)
  with run show ?thesis by simp
qed

lemma fl_25_gib: "fl 26843545600 = 26843545600"
  by (subst fl_eval [where k = 34]) (simp_all add: fl_eval_simps)

lemma fl_int_25: "fl 25 = 25"
  by (subst fl_eval [where k = 4]) (simp_all add: fl_eval_simps)

lemma fl_2501: "fl (2501 / 100) = 7039689167533507 / 2 ^ 48"
  by (subst fl_eval [where k = 4]) (simp_all add: fl_eval_simps)

lemma fl_5001: "fl (5001 / 100) = 7038281792649953 / 2 ^ 47"
  by (subst fl_eval [where k = 5]) (simp_all add: fl_eval_simps)

lemma fl_2501_plus_25:
  "fl (14076563585299907 / 281474976710656) = 3519140896324977 / 70368744177664"
  by (subst fl_eval [where k = 5]) (simp_all add: fl_eval_simps)

lemma fractional_quota_exceeded:
  "quota_exceeded (ex_client 5001 2501 204800 active) 26843545600"
proof -
  have "newStorageUsed (ex_client 5001 2501 204800 active) 26843545600
          = 3519140896324977 / 70368744177664"
    by (simp only: newStorageUsed_def parseFloat_def js_number_def js_add_def js_div_def)
       (simp add: GB_def ex_client_def fl_25_gib fl_int_25 fl_2501 fl_2501_plus_25)
  moreover have "parseFloat 2 (storage_quota_gb (ex_client 5001 2501 204800 active))
          = 7038281792649953 / 2 ^ 47"
    by (simp add: parseFloat_def ex_client_def fl_5001)
  ultimately show ?thesis by (simp add: quota_exceeded_def)
qed

text \<open>
  The comparison of \<^verbatim>\<open>getUploadUrl\<close> is strict, and it is exact on amounts that are
  doubles: when usage and quota are multiples of a quarter of a GB, the upload that fills
  the quota exactly does not exceed it.
\<close>

lemma quarter_gb_fill_is_authorized:
  assumes u: "storage_used_gb c = 25 * a" and q: "storage_quota_gb c = 25 * b"
    and a: "0 \<le> a" "a \<le> b" "b < 2 ^ 53"
  shows "dec2_value (storage_used_gb c) + of_int ((b - a) * 2 ^ 28) / 2 ^ 30
           = dec2_value (storage_quota_gb c)"
    and "\<not> quota_exceeded c ((b - a) * 2 ^ 28)"
proof -
  show "dec2_value (storage_used_gb c) + of_int ((b - a) * 2 ^ 28) / 2 ^ 30
           = dec2_value (storage_quota_gb c)"
    by (simp add: u q dec2_value_def field_simps)
  have pu: "parseFloat 2 (storage_used_gb c) = of_int a * pow2 (- 2)"
  proof -
    have e: "(of_int (25 * a) :: rat) / 10 ^ 2 = of_int a * pow2 (- 2)"
      by (simp add: pow2_def)
    have "fl (of_int a * pow2 (- 2)) = of_int a * pow2 (- 2)"
      using a by (intro fl_exact) simp
    then show ?thesis by (simp only: parseFloat_def u e)
  qed
  have pq: "parseFloat 2 (storage_quota_gb c) = of_int b * pow2 (- 2)"
  proof -
    have e: "(of_int (25 * b) :: rat) / 10 ^ 2 = of_int b * pow2 (- 2)"
      by (simp add: pow2_def)
    have "fl (of_int b * pow2 (- 2)) = of_int b * pow2 (- 2)"
      using a by (intro fl_exact) simp
    then show ?thesis by (simp only: parseFloat_def q e)
  qed
  have n: "js_number ((b - a) * 2 ^ 28) = of_int (b - a) * pow2 28"
  proof -
    have e: "(of_int ((b - a) * 2 ^ 28) :: rat) = of_int (b - a) * pow2 28"
      by (simp add: pow2_def)
    have "fl (of_int (b - a) * pow2 28) = of_int (b - a) * pow2 28"
      using a by (intro fl_exact) simp
    then show ?thesis by (simp only: js_number_def e)
  qed
  have dv: "js_div (js_number ((b - a) * 2 ^ 28)) (of_int GB) = of_int (b - a) * pow2 (- 2)"
  proof -
    have e: "of_int (b - a) * pow2 28 / of_int GB = (of_int (b - a) * pow2 (- 2) :: rat)"
      by (simp add: pow2_def GB_def)
    have "fl (of_int (b - a) * pow2 (- 2)) = of_int (b - a) * pow2 (- 2)"
      using a by (intro fl_exact) simp
    then show ?thesis by (simp only: js_div_def n e)
  qed
  have sm: "newStorageUsed c ((b - a) * 2 ^ 28) = of_int b * pow2 (- 2)"
  proof -
    have e: "of_int a * pow2 (- 2) + of_int (b - a) * pow2 (- 2) = (of_int b * pow2 (- 2) :: rat)"
      by (simp add: algebra_simps)
    have "fl (of_int b * pow2 (- 2)) = of_int b * pow2 (- 2)"
      using a by (intro fl_exact) simp
    then show ?thesis by (simp only: newStorageUsed_def js_add_def pu dv e)
  qed
  show "\<not> quota_exceeded c ((b - a) * 2 ^ 28)"
    by (simp only: quota_exceeded_def sm pq less_irrefl not_False_eq_True)
qed

text \<open>
  C10, at a quota that is not a binary fraction. A tenant has used 25.01 GB of a quota of
  50.01 GB and asks to upload 26843545600 bytes, exactly 25 GB: usage plus size is the
  quota, and the request fails with \<^verbatim>\<open>QUOTA_EXCEEDED\<close>. The sum of the doubles for
  25.01 and 25 is one unit in the last place above the double for 50.01.
\<close>

theorem exact_fill_is_rejected:
  "dec2_value 2501 + 26843545600 / 2 ^ 30 = dec2_value 5001
   \<and> getUploadUrl (ex_upload 26843545600) ''f-new'' (Some ''https://s3.example.com/put'')
       fractional_quota_db = (Inl QUOTA_EXCEEDED, fractional_quota_db)"
proof -
  have sel: "select_client_with_config ''user-1'' fractional_quota_db
     = [(ex_client 5001 2501 204800 active, Some (ex_config True))]"
    by (simp add: select_client_with_config_def fractional_quota_db_def ex_defs)
  have "getUploadUrl (ex_upload 26843545600) ''f-new'' (Some ''https://s3.example.com/put'')
       fractional_quota_db = (Inl QUOTA_EXCEEDED, fractional_quota_db)"
    using fractional_quota_exceeded
    by (simp add: getUploadUrl_def sel not_verified_def ex_config_def ex_client_def ex_upload_def)
  then show ?thesis by (simp add: dec2_value_def)
qed

lemma concat_map_head:
  "concat (map g xs) = r # rest \<Longrightarrow> \<exists>x \<in> set xs. \<exists>t. g x = r # t"
proof (induction xs)
  case Nil
  then show ?case by simp
next
  case (Cons x xs)
  show ?case
  proof (cases "g x")
    case Nil
    with Cons show ?thesis by auto
  next
    case (Cons y ys)
    with Cons.prems show ?thesis by auto
  qed
qed

lemma concat_map_head_first:
  assumes "g x \<noteq> []" "concat (map g (x # xs)) = r # rest"
  shows "\<exists>t. g x = r # t"
  using assms by (cases "g x") auto

lemma select_download_egress:
  assumes "select_download now fid uid db = (f, c, e) # rest"
  shows "e = get_client_monthly_egress now (c_id c) db"
proof -
  let ?cfg = "\<lambda>c. case filter (\<lambda>cs. cs_client_id cs = c_id c) (client_storage_config db) of
                [] \<Rightarrow> [None] | css \<Rightarrow> map Some css"
  let ?eg = "\<lambda>c. case filter (egress_key (c_id c) (month_year_of now)) (egress_usage db) of
              [] \<Rightarrow> [0] | es \<Rightarrow> map egress_used_gb es"
  let ?g3 = "\<lambda>f c e. map (\<lambda>cs. (f, c, e)) (?cfg c)"
  let ?g2 = "\<lambda>f c. concat (map (?g3 f c) (?eg c))"
  let ?g1 = "\<lambda>f. concat (map (?g2 f)
               (filter (\<lambda>c. f_client_id f = c_id c \<and> c_user_id c = uid) (clients db)))"
  have "concat (map ?g1 (filter (\<lambda>f. f_id f = fid \<and> deleted_at f = None \<and> f_type f = type_file)
          (files db))) = (f, c, e) # rest"
    using assms by (simp add: select_download_def)
  from concat_map_head [OF this] obtain f' t1 where "?g1 f' = (f, c, e) # t1" by blast
  from concat_map_head [OF this] obtain c' t2 where g2: "?g2 f' c' = (f, c, e) # t2" by blast
  have cfg_ne: "?cfg c' \<noteq> []" by (simp split: list.splits)
  obtain e1 es where eg: "?eg c' = e1 # es"
    by (cases "?eg c'") (simp_all split: list.splits)
  have e1: "e1 = egress_of (c_id c') (month_year_of now) (egress_usage db)"
    using eg by (simp add: egress_of_def split: list.splits)
  have ne: "?g3 f' c' e1 \<noteq> []" using cfg_ne by simp
  have eq: "concat (map (?g3 f' c') (e1 # es)) = (f, c, e) # t2"
    using g2 eg by simp
  have "\<exists>t. ?g3 f' c' e1 = (f, c, e) # t"
    using ne eq by (rule concat_map_head_first)
  then obtain t3 where "?g3 f' c' e1 = (f, c, e) # t3" ..
  then have "c = c'" "e = e1" by (auto simp: map_eq_Cons_conv)
  with e1 show ?thesis by (simp add: get_client_monthly_egress_def)
qed

lemma select_download_month:
  "month_year_of now' = month_year_of now \<Longrightarrow>
     select_download now' fid uid db = select_download now fid uid db"
  by (simp add: select_download_def)

text \<open>
  The gates of \<^verbatim>\<open>getDownloadUrl\<close> before the overage test: \<^verbatim>\<open>FILE_NOT_FOUND\<close> when the
  user has no such live file, then \<^verbatim>\<open>ACCOUNT_SUSPENDED\<close> when the status of the tenant is
  not active; the database is left as it was.
\<close>

lemma getDownloadUrl_file_not_found:
  "select_download now (d_fileId req) (d_userId req) db = [] \<Longrightarrow>
     getDownloadUrl req now i presigned db = (Inl FILE_NOT_FOUND, db)"
  by (simp add: getDownloadUrl_def)

lemma getDownloadUrl_account_suspended:
  "select_download now (d_fileId req) (d_userId req) db = (f, client, egress) # rest \<Longrightarrow>
     status client \<noteq> active \<Longrightarrow>
     getDownloadUrl req now i presigned db = (Inl ACCOUNT_SUSPENDED, db)"
  by (simp add: getDownloadUrl_def)

text \<open>
  When the value that arrives for \<^verbatim>\<open>block_downloads_on_overage\<close> is the string
  \<^verbatim>\<open>'true'\<close> and the current-month egress usage of an active tenant is greater than or
  equal to the free limit, every call of \<^verbatim>\<open>getDownloadUrl\<close> by that tenant for one of
  their live files fails with \<^verbatim>\<open>DOWNLOAD_LIMIT_EXCEEDED\<close> and leaves the database as it
  was, so that every later call in the same month fails in the same way.
\<close>

lemma getDownloadUrl_blocked_on_overage:
  assumes "select_download now (d_fileId req) (d_userId req) db = (f, client, egress) # rest"
    and "status client = active"
    and "blockOnOverage db"
    and "dec2_value (egress_free_limit_gb client)
           \<le> dec4_value (get_client_monthly_egress now (c_id client) db)"
  shows "getDownloadUrl req now i presigned db = (Inl DOWNLOAD_LIMIT_EXCEEDED, db)
       \<and> (\<forall>now' i' presigned'. month_year_of now' = month_year_of now \<longrightarrow>
            getDownloadUrl req now' i' presigned' (snd (getDownloadUrl req now i presigned db))
              = (Inl DOWNLOAD_LIMIT_EXCEEDED, db))"
proof -
  have e: "egress = get_client_monthly_egress now (c_id client) db"
    using assms(1) by (rule select_download_egress)
  have over: "over_limit egress client"
    unfolding over_limit_def e using assms(4) by (simp add: parseFloat_mono)
  have blocked: "getDownloadUrl req now' i' presigned' db = (Inl DOWNLOAD_LIMIT_EXCEEDED, db)"
    if "month_year_of now' = month_year_of now" for now' i' presigned'
    using assms(1-3) over select_download_month [OF that]
    by (simp add: getDownloadUrl_def)
  show ?thesis using blocked by simp
qed

text \<open>
  A tenant at 2048.0000 GB of a limit of 2048.00 GB: the download is refused in mid March
  and again in late March.
\<close>

lemma string_setting_blocks_twice:
  "select_download mid_march ''f1'' ''user-1'' (overage_db active)
     = [(ex_file ''f1'' 1073741824 type_file (Some ''etag-1'') None,
         ex_client 10000 100 204800 active, 20480000)]
   \<and> getDownloadUrl ex_download mid_march ''n1'' (Some ''https://s3.example.com/get'')
        (overage_db active) = (Inl DOWNLOAD_LIMIT_EXCEEDED, overage_db active)
   \<and> getDownloadUrl ex_download late_march ''n2'' (Some ''https://s3.example.com/get'')
        (snd (getDownloadUrl ex_download mid_march ''n1'' (Some ''https://s3.example.com/get'')
                (overage_db active)))
        = (Inl DOWNLOAD_LIMIT_EXCEEDED, overage_db active)"
proof -
  have sel: "select_download mid_march (d_fileId ex_download) (d_userId ex_download) (overage_db active)
     = (ex_file ''f1'' 1073741824 type_file (Some ''etag-1'') None,
         ex_client 10000 100 204800 active, 20480000) # []"
    by (simp add: select_download_def overage_db_def egress_key_def ex_defs dt_defs)
  have st: "status (ex_client 10000 100 204800 active) = active"
    by (simp add: ex_client_def)
  have blk: "blockOnOverage (overage_db active)"
    by (simp add: blockOnOverage_def overage_db_def ex_db_def)
  have use: "dec2_value (egress_free_limit_gb (ex_client 10000 100 204800 active))
           \<le> dec4_value (get_client_monthly_egress mid_march
                 (c_id (ex_client 10000 100 204800 active)) (overage_db active))"
    by (simp add: get_client_monthly_egress_def egress_of_def egress_key_def overage_db_def
        dec2_value_def dec4_value_def ex_defs dt_defs)
  have same: "month_year_of late_march = month_year_of mid_march"
    by (simp add: ex_defs dt_defs)
  note main = getDownloadUrl_blocked_on_overage [OF sel st blk use,
      of "''n1''" "Some ''https://s3.example.com/get''"]
  note first = main [THEN conjunct1]
  note again = main [THEN conjunct2, rule_format, OF same,
      of "''n2''" "Some ''https://s3.example.com/get''"]
  show ?thesis
    using first again sel by (simp add: ex_download_def)
qed

text \<open>
  With the string \<^verbatim>\<open>'true'\<close> and usage at the limit, the call of a suspended tenant
  fails with \<^verbatim>\<open>ACCOUNT_SUSPENDED\<close>: the status is checked before the overage.
\<close>

lemma suspended_tenant_gets_account_suspended:
  "blockOnOverage (overage_db suspended)
   \<and> dec2_value 204800 \<le> dec4_value (get_client_monthly_egress mid_march ''client-1''
        (overage_db suspended))
   \<and> getDownloadUrl ex_download mid_march ''n1'' (Some ''https://s3.example.com/get'')
        (overage_db suspended) = (Inl ACCOUNT_SUSPENDED, overage_db suspended)"
  by (simp add: getDownloadUrl_def select_download_def blockOnOverage_def
      get_client_monthly_egress_def egress_of_def egress_key_def overage_db_def
      dec2_value_def dec4_value_def ex_defs dt_defs)


text \<open>
  The comparison with \<^verbatim>\<open>'true'\<close> is strict: the boolean \<^verbatim>\<open>true\<close> that arrives for the
  JSON value \<^verbatim>\<open>true\<close> leaves the blocking off, whatever the usage.
\<close>

lemma boolean_setting_does_not_block:
  "\<not> blockOnOverage (db\<lparr>system_settings := [(''block_downloads_on_overage'', JSBoolean True)]\<rparr>)"
  by (simp add: blockOnOverage_def)

text \<open>
  C6, with the setting true. The setting \<^verbatim>\<open>block_downloads_on_overage\<close> holds the JSON
  value \<^verbatim>\<open>true\<close>, and an active tenant has used 2048.0000 GB of a free limit of
  2048.00 GB in March 2026. The call of \<^verbatim>\<open>getDownloadUrl\<close> for the tenant's file of 1 GiB
  is not refused with \<^verbatim>\<open>DOWNLOAD_LIMIT_EXCEEDED\<close>: it passes the overage test, the URL is
  signed and \<^verbatim>\<open>record_egress\<close> is called, which adds the download to the usage, now
  2049.0000 GB, and ends in the error of its ambiguous column.
\<close>

theorem true_setting_does_not_block:
  "select_download mid_march ''f1'' ''user-1'' true_setting_db
     = [(ex_file ''f1'' 1073741824 type_file (Some ''etag-1'') None,
         ex_client 10000 100 204800 active, 20480000)]
   \<and> dec2_value 204800 \<le> dec4_value 20480000
   \<and> over_limit 20480000 (ex_client 10000 100 204800 active)
   \<and> \<not> blockOnOverage true_setting_db
   \<and> getDownloadUrl ex_download mid_march ''n1'' (Some ''https://s3.example.com/get'')
        true_setting_db
     = (Inl (DatabaseError (NonUniqueColumn ''egress_used_gb'')),
        true_setting_db\<lparr>egress_usage := [ex_egress 20490000]\<rparr>)"
proof -
  have sel: "select_download mid_march ''f1'' ''user-1'' true_setting_db
     = [(ex_file ''f1'' 1073741824 type_file (Some ''etag-1'') None,
         ex_client 10000 100 204800 active, 20480000)]"
    by (simp add: select_download_def true_setting_db_def overage_db_def egress_key_def
        ex_defs dt_defs)
  have le: "dec2_value 204800 \<le> dec4_value 20480000"
    by (simp add: dec2_value_def dec4_value_def)
  have over: "over_limit 20480000 (ex_client 10000 100 204800 active)"
    unfolding over_limit_def using le by (simp add: parseFloat_mono ex_client_def)
  have blk: "\<not> blockOnOverage true_setting_db"
    by (simp add: blockOnOverage_def true_setting_db_def)
  have rec: "record_egress mid_march ''n1'' ''client-1'' 1073741824 true_setting_db
     = (Some (NonUniqueColumn ''egress_used_gb''),
        true_setting_db\<lparr>egress_usage := [ex_egress 20490000]\<rparr>)"
    by (simp add: record_egress_stops record_usage_def to_gb4_def egress_key_def
        true_setting_db_def overage_db_def ex_defs dec_defs dt_defs)
  have req: "d_fileId ex_download = ''f1''" "d_userId ex_download = ''user-1''"
    by (simp_all add: ex_download_def)
  have st: "status (ex_client 10000 100 204800 active) = active"
    and cid: "c_id (ex_client 10000 100 204800 active) = ''client-1''"
    by (simp_all add: ex_client_def)
  have sz: "size_bytes (ex_file ''f1'' 1073741824 type_file (Some ''etag-1'') None) = 1073741824"
    by (simp add: ex_file_def)
  have "getDownloadUrl ex_download mid_march ''n1'' (Some ''https://s3.example.com/get'')
        true_setting_db
     = (Inl (DatabaseError (NonUniqueColumn ''egress_used_gb'')),
        true_setting_db\<lparr>egress_usage := [ex_egress 20490000]\<rparr>)"
    by (simp add: getDownloadUrl_def req sel blk st cid sz rec)
  with sel le over blk show ?thesis by simp
qed

section \<open>Alert flags\<close>

text \<open>
  The statement of \<^verbatim>\<open>dismissAlert\<close> names a column that the table does not have, so
  the call fails for every alert the user owns.
\<close>

lemma dismissAlert_always_fails:
  "select_owned_alerts alertId userId db \<noteq> [] \<Longrightarrow>
     dismissAlert alertId userId db = Inl (DatabaseError (BadField ''is_dismissed''))"
  by (simp add: dismissAlert_def update_alerts_set_true_def alerts_columns_def resolve_column_def)

text \<open>
  C9. The user of the example client owns the alert \<open>a4\<close>. \<^verbatim>\<open>dismissAlert\<close> on it
  fails with the unknown column \<^verbatim>\<open>is_dismissed\<close> and changes nothing, whereas
  \<^verbatim>\<open>markAlertRead\<close> sets \<^verbatim>\<open>is_read\<close> on that row and succeeds.
\<close>

theorem dismissAlert_unknown_column:
  "select_owned_alerts ''a4'' ''user-1'' two_months_db
     = [ex_alert ''a4'' egress_warning 90 mid_march]
   \<and> dismissAlert ''a4'' ''user-1'' two_months_db
     = Inl (DatabaseError (BadField ''is_dismissed''))
   \<and> markAlertRead ''a4'' ''user-1'' two_months_db
     = Inr (two_months_db\<lparr>alerts :=
         [ex_alert ''a1'' egress_warning 80 mid_january,
          ex_alert ''a2'' egress_limit 100 mid_january,
          ex_alert ''a3'' storage_warning 80 mid_january,
          (ex_alert ''a4'' egress_warning 90 mid_march)\<lparr>is_read := True\<rparr>]\<rparr>)"
  by (simp add: dismissAlert_def markAlertRead_def update_alerts_set_true_def alerts_columns_def resolve_column_def
      select_owned_alerts_def two_months_db_def ex_defs)

end
